theory Spec2Isabelle
  imports Main "HOL-Library.AList"
begin

section \<open>Data model\<close>

text \<open>
  The suite tree of \<^verbatim>\<open>robot.running.model.TestSuite\<close>, restricted to the attributes
  \<^verbatim>\<open>builders.py\<close> reads or writes: \<^verbatim>\<open>name\<close>, \<^verbatim>\<open>source\<close>, \<^verbatim>\<open>suites\<close>, \<^verbatim>\<open>tests\<close>
  and the tri-state \<^verbatim>\<open>rpa\<close> (\<open>None\<close> unset, \<open>Some False\<close> tests, \<open>Some True\<close> tasks).
\<close>

datatype suite = TestSuite
  (name: string)
  (source: "string option")
  (suites: "suite list")
  (tests: "string list")
  (rpa: "bool option")

fun set_rpa :: "bool option \<Rightarrow> suite \<Rightarrow> suite" where
  "set_rpa r (TestSuite n src cs ts _) = TestSuite n src cs ts r"

fun set_suites :: "suite list \<Rightarrow> suite \<Rightarrow> suite" where
  "set_suites cs (TestSuite n src _ ts r) = TestSuite n src cs ts r"

text \<open>\<^verbatim>\<open>suite.suites.append(child)\<close>\<close>

fun append_suite :: "suite \<Rightarrow> suite \<Rightarrow> suite" where
  "append_suite child (TestSuite n src cs ts r) = TestSuite n src (cs @ [child]) ts r"

text \<open>\<^verbatim>\<open>suite.config(name=..., source=...)\<close>\<close>

fun config :: "string \<Rightarrow> string option \<Rightarrow> suite \<Rightarrow> suite" where
  "config n src (TestSuite _ _ cs ts r) = TestSuite n src cs ts r"

text \<open>
  The traversal input of \<^verbatim>\<open>robot.parsing.SuiteStructure\<close>: a file node with its source
  and extension, or a directory node with its source (absent for the synthetic node of
  several input paths), its init file, the extension of the init file, the multi-source
  flag and its children.
\<close>

datatype "structure" =
  SuiteFile string "string option"
| SuiteDirectory "string option" "string option" "string option" bool "structure list"

text \<open>
  The exceptions of a build. \<open>DataError\<close> carries its message; \<open>OtherError\<close> is any
  exception of a parser that is not a \<open>DataError\<close>. \<open>InvalidRef\<close> has no Python
  counterpart: the model returns it when a reference on the stack denotes no suite of
  the root, which no traversal produces.
\<close>

datatype error =
  DataError string
| IndexError
| KeyError
| AttributeError
| InvalidRef
| OtherError string

text \<open>
  Modelled from the spec: \<^verbatim>\<open>TestDefaults\<close> of \<^verbatim>\<open>settings.py\<close>, the settings scope
  derived from an optional parent scope; \<open>tags\<close> stands for the settings it carries.
\<close>

datatype defaults = TestDefaults (parent: "defaults option") (tags: "string list")

text \<open>
  The parser capability: \<^verbatim>\<open>parse_suite_file(source, defaults)\<close> and
  \<^verbatim>\<open>parse_init_file(source, defaults)\<close> return a suite or raise. An init-file parser
  may fill the defaults scope it is given, so it returns the scope as it leaves it.
  \<open>extensions\<close> is the property of \<^verbatim>\<open>CustomParser\<close>; the other parsers leave it empty.
\<close>

record parser =
  parse_suite_file :: "string \<Rightarrow> defaults \<Rightarrow> error + suite"
  parse_init_file :: "string option \<Rightarrow> defaults \<Rightarrow> error + suite \<times> defaults"
  extensions :: "string list"

section \<open>Object references\<close>

text \<open>
  \<^verbatim>\<open>SuiteStructureParser\<close> keeps the root in \<^verbatim>\<open>self.suite\<close> and, on its stack, references
  to directory suites that are already attached below that root; appending a child through
  a stack reference is visible from the root. The store is the root tree itself and a
  reference is the path of child indices from the root to the object.
\<close>

type_synonym ref = "nat list"

fun deref :: "suite \<Rightarrow> ref \<Rightarrow> suite option" where
  "deref s [] = Some s"
| "deref s (i # p) = (if i < length (suites s) then deref (suites s ! i) p else None)"

fun update_at :: "ref \<Rightarrow> (suite \<Rightarrow> suite) \<Rightarrow> suite \<Rightarrow> suite" where
  "update_at [] f s = f s"
| "update_at (i # p) f s =
     (if i < length (suites s)
      then set_suites ((suites s)[i := update_at p f (suites s ! i)]) s
      else s)"

section \<open>String formatting\<close>

definition quote :: "string \<Rightarrow> string" where
  "quote s = CHR 0x27 # s @ [CHR 0x27]"

text \<open>An f-string field holding an optional path: \<^verbatim>\<open>None\<close> prints as \<^verbatim>\<open>None\<close>.\<close>

fun str_opt :: "string option \<Rightarrow> string" where
  "str_opt None = ''None''"
| "str_opt (Some s) = s"

text \<open>\<^verbatim>\<open>f"Parsing '{source}' failed: {err.message}"\<close>\<close>

definition parsing_failed :: "string \<Rightarrow> string \<Rightarrow> string" where
  "parsing_failed src msg = ''Parsing '' @ quote src @ '' failed: '' @ msg"

definition conflict_message :: "string \<Rightarrow> string \<Rightarrow> string" where
  "conflict_message this that =
     ''Conflicting execution modes. File has '' @ this @
     '' but files parsed earlier have '' @ that @
     ''. Fix headers or use '' @ quote ''--rpa'' @ '' or '' @ quote ''--norpa'' @
     '' options to set the execution mode explicitly.''"

section \<open>SuiteStructureParser\<close>

text \<open>
  The visitor's attributes. The head of \<open>stack\<close> is the top frame (\<^verbatim>\<open>self._stack[-1]\<close>).
  The dictionary of parsers is an association list in insertion order.
\<close>

record parser_state =
  parsers :: "(string option \<times> parser) list"
  self_rpa :: "bool option"
  rpa_given :: bool
  self_suite :: "suite option"
  stack :: "(ref \<times> defaults) list"

definition SuiteStructureParser :: "(string option \<times> parser) list \<Rightarrow> bool option \<Rightarrow> parser_state" where
  "SuiteStructureParser ps r =
     \<lparr>parsers = ps, self_rpa = r, rpa_given = (r \<noteq> None), self_suite = None, stack = []\<rparr>"

definition parent_defaults :: "parser_state \<Rightarrow> defaults option" where
  "parent_defaults st = (case stack st of [] \<Rightarrow> None | (_, d) # _ \<Rightarrow> Some d)"

definition validate_execution_mode :: "parser_state \<Rightarrow> suite \<Rightarrow> error + suite \<times> parser_state" where
  "validate_execution_mode st s =
     (if rpa_given st then Inr (set_rpa (self_rpa st) s, st)
      else if rpa s = None then Inr (s, st)
      else if self_rpa st = None then Inr (s, st\<lparr>self_rpa := rpa s\<rparr>)
      else if self_rpa st \<noteq> rpa s then
        (let (this, that) = (if rpa s = Some True then (''tasks'', ''tests'')
                             else (''tests'', ''tasks''))
         in Inl (DataError (conflict_message this that)))
      else Inr (s, st))"

text \<open>
  \<^verbatim>\<open>except DataError as err: raise DataError(f"Parsing '{source}' failed: {err.message}")\<close>;
  any other exception passes through.
\<close>

fun reraise :: "string \<Rightarrow> error \<Rightarrow> error" where
  "reraise src (DataError msg) = DataError (parsing_failed src msg)"
| "reraise src e = e"

text \<open>
  The walk calls \<^verbatim>\<open>visit_file\<close> on file nodes only and the directory callbacks on
  directory nodes only; on a node of the other kind the model returns
  \<open>AttributeError\<close>. Logging is left out.
\<close>

fun build_suite_file :: "parser_state \<Rightarrow> structure \<Rightarrow> error + suite \<times> parser_state" where
  "build_suite_file st (SuiteFile src ext) =
     (let dflts = (case parent_defaults st of Some d \<Rightarrow> d | None \<Rightarrow> TestDefaults None [])
      in case map_of (parsers st) ext of
           None \<Rightarrow> Inl KeyError
         | Some p \<Rightarrow>
             (case parse_suite_file p src dflts of
                Inl e \<Rightarrow> Inl (reraise src e)
              | Inr s \<Rightarrow>
                  (case validate_execution_mode st s of
                     Inl e \<Rightarrow> Inl (reraise src e)
                   | Inr r \<Rightarrow> Inr r)))"
| "build_suite_file st (SuiteDirectory _ _ _ _ _) = Inl AttributeError"

fun build_suite_directory :: "parser_state \<Rightarrow> structure \<Rightarrow> error + suite \<times> defaults" where
  "build_suite_directory st (SuiteDirectory src init ext multi _) =
     (let source = (case init of Some i \<Rightarrow> Some i | None \<Rightarrow> src);
          dflts = TestDefaults (parent_defaults st) []
      in case map_of (parsers st) ext of
           None \<Rightarrow> Inl KeyError
         | Some p \<Rightarrow>
             (case parse_init_file p source dflts of
                Inl e \<Rightarrow> Inl (reraise (str_opt source) e)
              | Inr (s, dflts') \<Rightarrow>
                  Inr (if multi then config '''' None s else s, dflts')))"
| "build_suite_directory st (SuiteFile _ _) = Inl AttributeError"

text \<open>
  \<^verbatim>\<open>self._stack[-1][0].suites.append(suite)\<close>: the new child is attached below the root
  through the top frame's reference; the result is the new root and the reference of
  the child inside it.
\<close>

definition attach :: "parser_state \<Rightarrow> suite \<Rightarrow> suite \<Rightarrow> error + suite \<times> ref" where
  "attach st root s =
     (case stack st of
        [] \<Rightarrow> Inl IndexError
      | (r, _) # _ \<Rightarrow>
          (case deref root r of
             None \<Rightarrow> Inl InvalidRef
           | Some par \<Rightarrow> Inr (update_at r (append_suite s) root, r @ [length (suites par)])))"

definition visit_file :: "parser_state \<Rightarrow> structure \<Rightarrow> error + parser_state" where
  "visit_file st structure =
     (case build_suite_file st structure of
        Inl e \<Rightarrow> Inl e
      | Inr (s, st') \<Rightarrow>
          (case self_suite st' of
             None \<Rightarrow> Inr (st'\<lparr>self_suite := Some s\<rparr>)
           | Some root \<Rightarrow>
               (case attach st' root s of
                  Inl e \<Rightarrow> Inl e
                | Inr (root', _) \<Rightarrow> Inr (st'\<lparr>self_suite := Some root'\<rparr>))))"

definition start_directory :: "parser_state \<Rightarrow> structure \<Rightarrow> error + parser_state" where
  "start_directory st structure =
     (case build_suite_directory st structure of
        Inl e \<Rightarrow> Inl e
      | Inr (s, dflts) \<Rightarrow>
          (case self_suite st of
             None \<Rightarrow> Inr (st\<lparr>self_suite := Some s, stack := ([], dflts) # stack st\<rparr>)
           | Some root \<Rightarrow>
               (case attach st root s of
                  Inl e \<Rightarrow> Inl e
                | Inr (root', r) \<Rightarrow>
                    Inr (st\<lparr>self_suite := Some root', stack := (r, dflts) # stack st\<rparr>))))"

definition end_directory :: "parser_state \<Rightarrow> structure \<Rightarrow> error + parser_state" where
  "end_directory st structure =
     (case stack st of
        [] \<Rightarrow> Inl IndexError
      | (r, _) # rest \<Rightarrow>
          (case self_suite st of
             None \<Rightarrow> Inl InvalidRef
           | Some root \<Rightarrow>
               (case deref root r of
                  None \<Rightarrow> Inl InvalidRef
                | Some s \<Rightarrow>
                    (if rpa s = None \<and> suites s \<noteq> []
                     then Inr (st\<lparr>self_suite := Some (update_at r (set_rpa (rpa (hd (suites s)))) root),
                                 stack := rest\<rparr>)
                     else Inr (st\<lparr>stack := rest\<rparr>)))))"

text \<open>
  Modelled from the spec: \<^verbatim>\<open>SuiteStructure.visit\<close> and
  \<^verbatim>\<open>SuiteStructureVisitor.visit_directory\<close> of \<^verbatim>\<open>robot.parsing\<close>, the depth-first walk
  that calls enter-file on a file node and, on a directory node, enter-directory, the
  walk of each child in order, then exit-directory.
\<close>

fun visit :: "parser_state \<Rightarrow> structure \<Rightarrow> error + parser_state"
  and visit_children :: "parser_state \<Rightarrow> structure list \<Rightarrow> error + parser_state" where
  "visit st (SuiteFile src ext) = visit_file st (SuiteFile src ext)"
| "visit st (SuiteDirectory src init ext multi children) =
     (case start_directory st (SuiteDirectory src init ext multi children) of
        Inl e \<Rightarrow> Inl e
      | Inr st1 \<Rightarrow>
          (case visit_children st1 children of
             Inl e \<Rightarrow> Inl e
           | Inr st2 \<Rightarrow> end_directory st2 (SuiteDirectory src init ext multi children)))"
| "visit_children st [] = Inr st"
| "visit_children st (c # cs) =
     (case visit st c of
        Inl e \<Rightarrow> Inl e
      | Inr st' \<Rightarrow> visit_children st' cs)"

definition parse :: "parser_state \<Rightarrow> structure \<Rightarrow> error + suite" where
  "parse st structure =
     (case visit st structure of
        Inl e \<Rightarrow> Inl e
      | Inr st' \<Rightarrow>
          (case self_suite st' of
             None \<Rightarrow> Inl AttributeError
           | Some root \<Rightarrow> Inr (set_rpa (self_rpa st') root)))"

section \<open>TestSuiteBuilder\<close>

text \<open>
  What \<^verbatim>\<open>builders.py\<close> imports from outside: the file system
  (\<^verbatim>\<open>Path(normpath(p)).absolute()\<close>, \<^verbatim>\<open>exists\<close>, \<^verbatim>\<open>is_file\<close>, \<^verbatim>\<open>suffix\<close>),
  \<^verbatim>\<open>seq2str\<close>, \<^verbatim>\<open>SuiteStructureBuilder\<close>, the built-in parsers, and the loading and
  wrapping of custom parsers. \<open>'o\<close> is the type of custom parser objects;
  \<open>custom_parser\<close> is the constructor \<^verbatim>\<open>CustomParser(parser)\<close>, which returns the
  message of its \<^verbatim>\<open>TypeError\<close> on the left.
\<close>

record 'o env =
  normpath_absolute :: "string \<Rightarrow> string"
  path_exists :: "string \<Rightarrow> bool"
  is_file :: "string \<Rightarrow> bool"
  suffix :: "string \<Rightarrow> string"
  seq2str :: "string list \<Rightarrow> string"
  structure_builder :: "string list \<Rightarrow> string list \<Rightarrow> string list \<Rightarrow> error + structure"
  robot_parser :: parser
  rest_parser :: parser
  json_parser :: parser
  no_init_file_directory_parser :: parser
  split_args_from_name_or_path :: "string \<Rightarrow> string \<times> string list"
  import_class_or_module :: "string \<Rightarrow> string list \<Rightarrow> error + 'o"
  type_name :: "'o \<Rightarrow> string"
  custom_parser :: "'o \<Rightarrow> string + parser"

text \<open>A custom parser is given by name or path, or as an object.\<close>

datatype 'o parser_arg = ByName string | ByObject 'o

record builder =
  standard_parsers :: "(string \<times> parser) list"
  custom_parsers :: "(string \<times> parser) list"
  included_suites :: "string list"
  included_extensions :: "string list"
  builder_rpa :: "bool option"
  allow_empty_suite :: bool

definition get_standard_parsers :: "'o env \<Rightarrow> (string \<times> parser) list" where
  "get_standard_parsers e =
     [(''robot'', robot_parser e), (''rst'', rest_parser e), (''rest'', rest_parser e),
      (''rbt'', json_parser e), (''json'', json_parser e)]"

text \<open>The name under which a parser is reported, and the object to wrap.\<close>

fun resolve_parser :: "'o env \<Rightarrow> 'o parser_arg \<Rightarrow> error + string \<times> 'o" where
  "resolve_parser e (ByName p) =
     (let (nm, args) = split_args_from_name_or_path e p
      in case import_class_or_module e nm args of
           Inl err \<Rightarrow> Inl err
         | Inr obj \<Rightarrow> Inr (nm, obj))"
| "resolve_parser e (ByObject obj) = Inr (type_name e obj, obj)"

definition importing_failed :: "string \<Rightarrow> string \<Rightarrow> string" where
  "importing_failed nm err = ''Importing parser '' @ quote nm @ '' failed: '' @ err"

text \<open>
  The loop of \<^verbatim>\<open>_get_custom_parsers\<close>, with the dictionary built so far;
  \<open>AList.update\<close> is \<^verbatim>\<open>custom_parsers[ext] = custom_parser\<close>.
\<close>

fun get_custom_parsers_from ::
  "'o env \<Rightarrow> (string \<times> parser) list \<Rightarrow> 'o parser_arg list \<Rightarrow> error + (string \<times> parser) list" where
  "get_custom_parsers_from e acc [] = Inr acc"
| "get_custom_parsers_from e acc (p # ps) =
     (case resolve_parser e p of
        Inl err \<Rightarrow> Inl err
      | Inr (nm, obj) \<Rightarrow>
          (case custom_parser e obj of
             Inl err \<Rightarrow> Inl (DataError (importing_failed nm err))
           | Inr cp \<Rightarrow>
               get_custom_parsers_from e
                 (fold (\<lambda>ext d. AList.update ext cp d) (extensions cp) acc) ps))"

definition get_custom_parsers :: "'o env \<Rightarrow> 'o parser_arg list \<Rightarrow> error + (string \<times> parser) list" where
  "get_custom_parsers e ps = get_custom_parsers_from e [] ps"

definition TestSuiteBuilder ::
  "'o env \<Rightarrow> string list \<Rightarrow> string list \<Rightarrow> 'o parser_arg list \<Rightarrow> bool option \<Rightarrow> bool
     \<Rightarrow> error + builder" where
  "TestSuiteBuilder e incl_suites incl_exts customs r allow_empty =
     (case get_custom_parsers e customs of
        Inl err \<Rightarrow> Inl err
      | Inr cps \<Rightarrow>
          Inr \<lparr>standard_parsers = get_standard_parsers e, custom_parsers = cps,
               included_suites = incl_suites, included_extensions = incl_exts,
               builder_rpa = r, allow_empty_suite = allow_empty\<rparr>)"

definition normalize_paths :: "'o env \<Rightarrow> string list \<Rightarrow> error + string list" where
  "normalize_paths e paths =
     (if paths = [] then Inl (DataError ''One or more source paths required.'')
      else
        (let ps = map (normpath_absolute e) paths;
             non_existing = filter (\<lambda>p. \<not> path_exists e p) ps
         in if non_existing \<noteq> []
            then Inl (DataError (''Parsing '' @ seq2str e non_existing @
                        '' failed: File or directory to execute does not exist.''))
            else Inr ps))"

text \<open>\<^verbatim>\<open>ext.lstrip('.').lower()\<close>, on ASCII letters.\<close>

definition lower_char :: "char \<Rightarrow> char" where
  "lower_char c =
     (let n = (of_char c :: nat) in if 65 \<le> n \<and> n \<le> 90 then char_of (n + 32) else c)"

definition normalize_ext :: "string \<Rightarrow> string" where
  "normalize_ext ext = map lower_char (dropWhile (\<lambda>c. c = CHR ''.'') ext)"

definition add_parser ::
  "(string \<times> parser) list \<Rightarrow> parser \<Rightarrow> string \<Rightarrow> (string option \<times> parser) list
     \<Rightarrow> (string option \<times> parser) list" where
  "add_parser std robot ext ps =
     (let x = normalize_ext ext
      in if map_of ps (Some x) = None
         then AList.update (Some x) (case map_of std x of Some p \<Rightarrow> p | None \<Rightarrow> robot) ps
         else ps)"

definition get_parsers :: "'o env \<Rightarrow> builder \<Rightarrow> string list \<Rightarrow> error + (string option \<times> parser) list" where
  "get_parsers e b paths =
     (let ps = (None, no_init_file_directory_parser e) #
               map (\<lambda>(k, v). (Some k, v)) (custom_parsers b)
      in case map_of (standard_parsers b) ''robot'' of
           None \<Rightarrow> Inl KeyError
         | Some robot \<Rightarrow>
             Inr (fold (add_parser (standard_parsers b) robot)
                    (included_extensions b @ map (suffix e) (filter (is_file e) paths)) ps))"

text \<open>
  Modelled from the spec: \<^verbatim>\<open>TestSuite.has_tests\<close> of \<^verbatim>\<open>robot.model\<close>, whether the suite
  contains at least one test or task, in itself or in a descendant.
\<close>

fun has_tests :: "suite \<Rightarrow> bool"
  and any_has_tests :: "suite list \<Rightarrow> bool" where
  "has_tests (TestSuite n src cs ts r) = (ts \<noteq> [] \<or> any_has_tests cs)"
| "any_has_tests [] = False"
| "any_has_tests (c # cs) = (has_tests c \<or> any_has_tests cs)"

text \<open>
  Modelled from the spec: \<^verbatim>\<open>TestSuite.remove_empty_suites\<close> of \<^verbatim>\<open>robot.model\<close>, which
  removes every subtree without tests or tasks; with \<open>preserve_direct_children\<close> the
  direct children of the root stay, and pruning applies below them.
\<close>

fun remove_empty_suites :: "bool \<Rightarrow> suite \<Rightarrow> suite" where
  "remove_empty_suites preserve_direct_children (TestSuite n src cs ts r) =
     TestSuite n src
       (let cs' = map (remove_empty_suites False) cs
        in if preserve_direct_children then cs' else filter has_tests cs')
       ts r"

definition no_tests_message :: "string \<Rightarrow> string" where
  "no_tests_message nm = ''Suite '' @ quote nm @ '' contains no tests or tasks.''"

function validate_not_empty :: "suite \<Rightarrow> bool \<Rightarrow> error + unit"
  and validate_children :: "suite list \<Rightarrow> error + unit" where
  "validate_not_empty s multi_source =
     (if multi_source then validate_children (suites s)
      else if \<not> has_tests s then Inl (DataError (no_tests_message (name s)))
      else Inr ())"
| "validate_children [] = Inr ()"
| "validate_children (child # rest) =
     (case validate_not_empty child False of
        Inl e \<Rightarrow> Inl e
      | Inr _ \<Rightarrow> validate_children rest)"
  by pat_completeness auto
termination
  by (relation "measure (\<lambda>x. case x of
                    Inl (s, m) \<Rightarrow> if m then 2 * length (suites s) + 2 else 0
                  | Inr cs \<Rightarrow> 2 * length cs + 1)") auto

definition build :: "'o env \<Rightarrow> builder \<Rightarrow> string list \<Rightarrow> error + suite" where
  "build e b paths =
     (case normalize_paths e paths of
        Inl err \<Rightarrow> Inl err
      | Inr ps \<Rightarrow>
          (case structure_builder e (included_extensions b @ map fst (custom_parsers b))
                  (included_suites b) ps of
             Inl err \<Rightarrow> Inl err
           | Inr structure \<Rightarrow>
               (case get_parsers e b ps of
                  Inl err \<Rightarrow> Inl err
                | Inr prs \<Rightarrow>
                    (case parse (SuiteStructureParser prs (builder_rpa b)) structure of
                       Inl err \<Rightarrow> Inl err
                     | Inr s \<Rightarrow>
                         (case (if included_suites b = [] \<and> \<not> allow_empty_suite b
                                then validate_not_empty s (1 < length ps)
                                else Inr ()) of
                            Inl err \<Rightarrow> Inl err
                          | Inr _ \<Rightarrow> Inr (remove_empty_suites (1 < length ps) s))))))"

section \<open>Traversal events and declared modes\<close>

text \<open>
  The nodes a traversal enters: \<open>reaches st0 s st n\<close> holds when the walk of \<open>s\<close> started
  in state \<open>st0\<close> arrives at node \<open>n\<close> of \<open>s\<close> with the visitor in state \<open>st\<close>, every
  callback before it having returned.
\<close>

inductive reaches :: "parser_state \<Rightarrow> structure \<Rightarrow> parser_state \<Rightarrow> structure \<Rightarrow> bool"
  and reaches_children :: "parser_state \<Rightarrow> structure list \<Rightarrow> parser_state \<Rightarrow> structure \<Rightarrow> bool" where
  here: "reaches st s st s"
| below: "start_directory st (SuiteDirectory src init ext multi children) = Inr st1 \<Longrightarrow>
          reaches_children st1 children st' n \<Longrightarrow>
          reaches st (SuiteDirectory src init ext multi children) st' n"
| first: "reaches st c st' n \<Longrightarrow> reaches_children st (c # cs) st' n"
| later: "visit st c = Inr st1 \<Longrightarrow> reaches_children st1 cs st' n \<Longrightarrow>
          reaches_children st (c # cs) st' n"

text \<open>The callback the walk makes on arriving at a node.\<close>

fun enter :: "parser_state \<Rightarrow> structure \<Rightarrow> error + parser_state" where
  "enter st (SuiteFile src ext) = visit_file st (SuiteFile src ext)"
| "enter st (SuiteDirectory src init ext multi children) =
     start_directory st (SuiteDirectory src init ext multi children)"

text \<open>
  The modes declared by the files of a structure, in traversal order: the \<open>rpa\<close> of each
  suite the file parser returns, with the defaults scope the visitor passes at that node.
\<close>

fun declared_modes :: "(string option \<times> parser) list \<Rightarrow> defaults option \<Rightarrow> structure \<Rightarrow> bool option list"
  and declared_modes_children ::
    "(string option \<times> parser) list \<Rightarrow> defaults option \<Rightarrow> structure list \<Rightarrow> bool option list" where
  "declared_modes ps pd (SuiteFile src ext) =
     (case map_of ps ext of
        None \<Rightarrow> []
      | Some p \<Rightarrow>
          (case parse_suite_file p src (case pd of Some d \<Rightarrow> d | None \<Rightarrow> TestDefaults None []) of
             Inl _ \<Rightarrow> []
           | Inr s \<Rightarrow> [rpa s]))"
| "declared_modes ps pd (SuiteDirectory src init ext multi children) =
     (case map_of ps ext of
        None \<Rightarrow> []
      | Some p \<Rightarrow>
          (case parse_init_file p (case init of Some i \<Rightarrow> Some i | None \<Rightarrow> src)
                  (TestDefaults pd []) of
             Inl _ \<Rightarrow> []
           | Inr (_, d) \<Rightarrow> declared_modes_children ps (Some d) children))"
| "declared_modes_children ps pd [] = []"
| "declared_modes_children ps pd (c # cs) =
     declared_modes ps pd c @ declared_modes_children ps pd cs"

text \<open>The first mode of the list that is set.\<close>

fun first_declared :: "bool option list \<Rightarrow> bool option" where
  "first_declared [] = None"
| "first_declared (None # ms) = first_declared ms"
| "first_declared (Some m # ms) = Some m"

text \<open>
  The running mode after a run of declarations: an established mode stays, an unset one
  becomes the first declared mode.
\<close>

definition reconciled :: "bool option \<Rightarrow> bool option list \<Rightarrow> bool option" where
  "reconciled running ms = (case running of Some m \<Rightarrow> Some m | None \<Rightarrow> first_declared ms)"

section \<open>Example inputs\<close>

text \<open>
  A small file system and its parsers, on which the properties below are evaluated:
  \<^verbatim>\<open>/d\<close> holds a tests file and a tasks file, \<^verbatim>\<open>/e\<close> a file without tests and a
  tasks file, \<^verbatim>\<open>/f\<close> is an empty directory, \<^verbatim>\<open>/a\<close> holds only the empty
  directory \<^verbatim>\<open>/a/b\<close>, \<^verbatim>\<open>/bad\<close> has an init file the parser rejects, and
  \<^verbatim>\<open>/d/broken.robot\<close> is a file the parser rejects. \<open>directory_parser\<close> stands for
  the parser of directories without an init file and names the suite after its source.
\<close>

definition directory_parser :: parser where
  "directory_parser =
     \<lparr>parse_suite_file = (\<lambda>src d. Inl (OtherError ''not a file parser'')),
      parse_init_file = (\<lambda>src d. Inr (TestSuite (str_opt src) src [] [] None, d)),
      extensions = []\<rparr>"

definition nested_dirs :: "structure" where
  "nested_dirs =
     SuiteDirectory (Some ''/a'') None None False
       [SuiteDirectory (Some ''/a/b'') None None False []]"

definition nested_tree :: "bool option \<Rightarrow> suite" where
  "nested_tree r =
     TestSuite ''/a'' (Some ''/a'') [TestSuite ''/a/b'' (Some ''/a/b'') [] [] None] [] r"

definition tests_suite :: "string \<Rightarrow> suite" where
  "tests_suite src = TestSuite ''Tests'' (Some src) [] [''Test 1''] (Some False)"

definition tasks_suite :: "string \<Rightarrow> suite" where
  "tasks_suite src = TestSuite ''Tasks'' (Some src) [] [''Task 1''] (Some True)"

definition empty_suite :: "string \<Rightarrow> suite" where
  "empty_suite src = TestSuite ''Empty'' (Some src) [] [] None"

definition example_parser :: parser where
  "example_parser =
     \<lparr>parse_suite_file = (\<lambda>src d.
        if src = ''/d/tests.robot'' then Inr (tests_suite src)
        else if src = ''/d/tasks.robot'' \<or> src = ''/e/tasks.robot'' then Inr (tasks_suite src)
        else if src = ''/e/empty.robot'' then Inr (empty_suite src)
        else Inl (DataError ''Unrecognized section header.'')),
      parse_init_file = (\<lambda>src d.
        if src = Some ''/bad/__init__.robot'' then Inl (DataError ''Invalid setting.'')
        else Inr (TestSuite (str_opt src) src [] [] None, d)),
      extensions = []\<rparr>"

definition plugin :: "nat \<Rightarrow> parser" where
  "plugin k =
     \<lparr>parse_suite_file = (\<lambda>src d. Inr (empty_suite src)),
      parse_init_file = (\<lambda>src d. Inr (TestSuite (str_opt src) src [] [] None, d)),
      extensions = (if k = 1 then [''xyz'', ''abc''] else if k = 3 then [''txt''] else [''xyz''])\<rparr>"

definition mixed_dir :: "structure" where
  "mixed_dir =
     SuiteDirectory (Some ''/d'') None None False
       [SuiteFile ''/d/tests.robot'' (Some ''robot''),
        SuiteFile ''/d/tasks.robot'' (Some ''robot'')]"

definition late_dir :: "structure" where
  "late_dir =
     SuiteDirectory (Some ''/e'') None None False
       [SuiteFile ''/e/empty.robot'' (Some ''robot''),
        SuiteFile ''/e/tasks.robot'' (Some ''robot'')]"

definition bad_init_dir :: "structure" where
  "bad_init_dir =
     SuiteDirectory (Some ''/bad'') (Some ''/bad/__init__.robot'') (Some ''robot'') False []"

definition two_roots :: "structure" where
  "two_roots =
     SuiteDirectory None None None True
       [late_dir, SuiteDirectory (Some ''/f'') None None False []]"

definition example_structure :: "string list \<Rightarrow> error + structure" where
  "example_structure ps =
     (if ps = [''/a''] then Inr nested_dirs
      else if ps = [''/d''] then Inr mixed_dir
      else if ps = [''/e''] then Inr late_dir
      else if ps = [''/bad''] then Inr bad_init_dir
      else if ps = [''/d/broken.robot''] then Inr (SuiteFile ''/d/broken.robot'' (Some ''robot''))
      else if ps = [''/e'', ''/f''] then Inr two_roots
      else Inl (DataError ''No files matched.''))"

definition example_env :: "nat env" where
  "example_env =
     \<lparr>normpath_absolute = (\<lambda>p. p),
      path_exists = (\<lambda>p. p \<noteq> ''/missing'' \<and> p \<noteq> ''/gone''),
      is_file = (\<lambda>p. p = ''/d/broken.robot''),
      suffix = (\<lambda>p. ''.robot''),
      seq2str = (\<lambda>xs. concat (map quote xs)),
      structure_builder = (\<lambda>exts incl ps. example_structure ps),
      robot_parser = example_parser, rest_parser = example_parser,
      json_parser = example_parser,
      no_init_file_directory_parser = directory_parser,
      split_args_from_name_or_path = (\<lambda>p. (p, [])),
      import_class_or_module = (\<lambda>nm args. Inl (DataError ''No module.'')),
      type_name = (\<lambda>k. if k = 0 then ''Broken'' else ''Plugin''),
      custom_parser = (\<lambda>k. if k = 0 then Inl ''missing parse method'' else Inr (plugin k))\<rparr>"

definition example_builder :: "bool option \<Rightarrow> bool \<Rightarrow> builder" where
  "example_builder r allow_empty =
     \<lparr>standard_parsers = get_standard_parsers example_env, custom_parsers = [],
      included_suites = [], included_extensions = [''.robot'', ''.RBT''],
      builder_rpa = r, allow_empty_suite = allow_empty\<rparr>"

definition example_parsers :: "(string option \<times> parser) list" where
  "example_parsers =
     [(None, directory_parser), (Some ''robot'', example_parser), (Some ''rbt'', example_parser)]"

definition after_start :: "bool option \<Rightarrow> parser_state" where
  "after_start r =
     \<lparr>parsers = example_parsers, self_rpa = r, rpa_given = (r \<noteq> None),
      self_suite = Some (TestSuite ''/d'' (Some ''/d'') [] [] None),
      stack = [([], TestDefaults None [])]\<rparr>"

definition after_tests :: parser_state where
  "after_tests =
     \<lparr>parsers = example_parsers, self_rpa = Some False, rpa_given = False,
      self_suite = Some (TestSuite ''/d'' (Some ''/d'') [tests_suite ''/d/tests.robot''] [] None),
      stack = [([], TestDefaults None [])]\<rparr>"

definition overridden_tree :: suite where
  "overridden_tree =
     TestSuite ''/d'' (Some ''/d'')
       [TestSuite ''Tests'' (Some ''/d/tests.robot'') [] [''Test 1''] (Some True),
        TestSuite ''Tasks'' (Some ''/d/tasks.robot'') [] [''Task 1''] (Some True)]
       [] (Some True)"

definition late_tree :: "bool option \<Rightarrow> suite" where
  "late_tree r =
     TestSuite ''/e'' (Some ''/e'')
       [empty_suite ''/e/empty.robot'', tasks_suite ''/e/tasks.robot''] [] r"

definition two_roots_tree :: suite where
  "two_roots_tree =
     TestSuite [] None [late_tree None, TestSuite ''/f'' (Some ''/f'') [] [] None] []
       (Some True)"

definition open_tree :: "bool option \<Rightarrow> suite" where
  "open_tree r =
     TestSuite ''/r'' (Some ''/r'')
       [TestSuite ''/r/sub'' (Some ''/r/sub'') [tasks_suite ''/r/sub/tasks.robot''] [] r]
       [] None"

definition exit_state :: "bool option \<Rightarrow> parser_state" where
  "exit_state r =
     \<lparr>parsers = example_parsers, self_rpa = Some True, rpa_given = False,
      self_suite = Some (open_tree r),
      stack = [([0], TestDefaults (Some (TestDefaults None [])) []),
               ([], TestDefaults None [])]\<rparr>"

definition pruned_two_roots :: suite where
  "pruned_two_roots =
     TestSuite [] None
       [TestSuite ''/e'' (Some ''/e'') [tasks_suite ''/e/tasks.robot''] [] None,
        TestSuite ''/f'' (Some ''/f'') [] [] None]
       [] (Some True)"

section \<open>Properties of the suite tree and the visitor\<close>

lemma suites_set_suites [simp]: "suites (set_suites cs s) = cs"
  by (cases s) simp

lemma rpa_set_rpa [simp]: "rpa (set_rpa r s) = r"
  by (cases s) simp

lemma set_rpa_fields [simp]:
  "name (set_rpa r s) = name s" "source (set_rpa r s) = source s"
  "suites (set_rpa r s) = suites s" "tests (set_rpa r s) = tests s"
  by (cases s; simp)+

lemma config_fields [simp]:
  "name (config n src s) = n" "source (config n src s) = src"
  "suites (config n src s) = suites s" "tests (config n src s) = tests s"
  "rpa (config n src s) = rpa s"
  by (cases s; simp)+

lemma deref_update_at: "deref (update_at r f root) r = map_option f (deref root r)"
  by (induction r arbitrary: root) simp_all

lemma validate_execution_mode_frame:
  assumes "validate_execution_mode st s = Inr (s', st')"
  shows "parsers st' = parsers st \<and> rpa_given st' = rpa_given st \<and> stack st' = stack st
         \<and> self_suite st' = self_suite st"
  using assms by (auto simp: validate_execution_mode_def Let_def split: if_splits prod.splits)

lemma build_suite_file_frame:
  assumes "build_suite_file st f = Inr (s', st')"
  shows "parsers st' = parsers st \<and> rpa_given st' = rpa_given st \<and> stack st' = stack st
         \<and> self_suite st' = self_suite st"
  using assms
  by (cases f) (auto simp: Let_def split: option.splits sum.splits dest: validate_execution_mode_frame)

lemma visit_file_frame:
  assumes "visit_file st f = Inr st'"
  shows "parsers st' = parsers st \<and> rpa_given st' = rpa_given st \<and> stack st' = stack st"
  using assms
  by (auto simp: visit_file_def split: sum.splits option.splits prod.splits dest: build_suite_file_frame)

lemma start_directory_frame:
  assumes "start_directory st d = Inr st'"
  shows "parsers st' = parsers st \<and> rpa_given st' = rpa_given st \<and> self_rpa st' = self_rpa st
         \<and> tl (stack st') = stack st \<and> stack st' \<noteq> []"
  using assms
  by (auto simp: start_directory_def split: sum.splits option.splits prod.splits)

lemma end_directory_frame:
  assumes "end_directory st d = Inr st'"
  shows "parsers st' = parsers st \<and> rpa_given st' = rpa_given st \<and> self_rpa st' = self_rpa st
         \<and> stack st' = tl (stack st)"
  using assms
  by (auto simp: end_directory_def split: sum.splits option.splits prod.splits list.splits if_splits)

lemma visit_frame:
  "visit st s = Inr st' \<Longrightarrow>
     parsers st' = parsers st \<and> rpa_given st' = rpa_given st \<and> stack st' = stack st"
  "visit_children st cs = Inr st' \<Longrightarrow>
     parsers st' = parsers st \<and> rpa_given st' = rpa_given st \<and> stack st' = stack st"
proof (induction st s and st cs arbitrary: st' and st' rule: visit_visit_children.induct)
  case (1 st src ext)
  then show ?case by (simp add: visit_file_frame)
next
  case (2 st src init ext multi children)
  from "2.prems" obtain st1 st2 where
    s1: "start_directory st (SuiteDirectory src init ext multi children) = Inr st1" and
    s2: "visit_children st1 children = Inr st2" and
    s3: "end_directory st2 (SuiteDirectory src init ext multi children) = Inr st'"
    by (auto split: sum.splits)
  from "2.IH"[OF s1 s2] start_directory_frame[OF s1] end_directory_frame[OF s3]
  show ?case by simp
next
  case (3 st)
  then show ?case by simp
next
  case (4 st c cs)
  from "4.prems" obtain st1 where
    s1: "visit st c = Inr st1" and s2: "visit_children st1 cs = Inr st'"
    by (auto split: sum.splits)
  from "4.IH"(1)[OF s1] "4.IH"(2)[OF s1 s2] show ?case by simp
qed

lemma validate_execution_mode_given:
  "rpa_given st \<Longrightarrow> validate_execution_mode st s = Inr (set_rpa (self_rpa st) s, st)"
  by (simp add: validate_execution_mode_def)

lemma build_suite_file_rpa_given:
  assumes "rpa_given st" "build_suite_file st f = Inr (s', st')"
  shows "st' = st \<and> rpa s' = self_rpa st"
  using assms
  by (cases f) (auto simp: Let_def validate_execution_mode_given split: option.splits sum.splits)

lemma visit_file_rpa_given:
  assumes "rpa_given st" "visit_file st f = Inr st'"
  shows "self_rpa st' = self_rpa st"
  using assms
  by (auto simp: visit_file_def split: sum.splits option.splits prod.splits
           dest!: build_suite_file_rpa_given)

lemma visit_rpa_given:
  "visit st s = Inr st' \<Longrightarrow> rpa_given st \<Longrightarrow> self_rpa st' = self_rpa st"
  "visit_children st cs = Inr st' \<Longrightarrow> rpa_given st \<Longrightarrow> self_rpa st' = self_rpa st"
proof (induction st s and st cs arbitrary: st' and st' rule: visit_visit_children.induct)
  case (1 st src ext)
  then show ?case by (simp add: visit_file_rpa_given)
next
  case (2 st src init ext multi children)
  from "2.prems" obtain st1 st2 where
    s1: "start_directory st (SuiteDirectory src init ext multi children) = Inr st1" and
    s2: "visit_children st1 children = Inr st2" and
    s3: "end_directory st2 (SuiteDirectory src init ext multi children) = Inr st'"
    by (auto split: sum.splits)
  have g1: "rpa_given st1" using start_directory_frame[OF s1] "2.prems" by simp
  from "2.IH"[OF s1 s2 g1] start_directory_frame[OF s1] end_directory_frame[OF s3]
  show ?case by simp
next
  case (3 st)
  then show ?case by simp
next
  case (4 st c cs)
  from "4.prems" obtain st1 where
    s1: "visit st c = Inr st1" and s2: "visit_children st1 cs = Inr st'"
    by (auto split: sum.splits)
  have g1: "rpa_given st1" using visit_frame(1)[OF s1] "4.prems" by simp
  from "4.IH"(1)[OF s1 "4.prems"(2)] "4.IH"(2)[OF s1 s2 g1] show ?case by simp
qed

lemma reaches_frame:
  "reaches st0 s st n \<Longrightarrow> parsers st = parsers st0 \<and> rpa_given st = rpa_given st0"
  "reaches_children st0 cs st n \<Longrightarrow> parsers st = parsers st0 \<and> rpa_given st = rpa_given st0"
proof (induction rule: reaches_reaches_children.inducts)
  case (below st src init ext multi children st1 st' n)
  then show ?case using start_directory_frame by simp
next
  case (later st c st1 cs st' n)
  then show ?case using visit_frame(1) by simp
qed simp_all

lemma reaches_rpa_given:
  "reaches st0 s st n \<Longrightarrow> rpa_given st0 \<Longrightarrow> self_rpa st = self_rpa st0"
  "reaches_children st0 cs st n \<Longrightarrow> rpa_given st0 \<Longrightarrow> self_rpa st = self_rpa st0"
proof (induction rule: reaches_reaches_children.inducts)
  case (below st src init ext multi children st1 st' n)
  then show ?case using start_directory_frame by simp
next
  case (later st c st1 cs st' n)
  then show ?case using visit_frame(1) visit_rpa_given(1) by simp
qed simp_all

lemma reaches_error:
  "reaches st0 s st n \<Longrightarrow> enter st n = Inl e \<Longrightarrow> visit st0 s = Inl e"
  "reaches_children st0 cs st n \<Longrightarrow> enter st n = Inl e \<Longrightarrow> visit_children st0 cs = Inl e"
proof (induction rule: reaches_reaches_children.inducts)
  case (here st s)
  then show ?case by (cases s) simp_all
qed simp_all

lemma parse_error:
  "reaches st0 s st n \<Longrightarrow> enter st n = Inl e \<Longrightarrow> parse st0 s = Inl e"
  by (simp add: parse_def reaches_error(1))

lemma build_parse_error:
  assumes "normalize_paths e paths = Inr ps"
    and "structure_builder e (included_extensions b @ map fst (custom_parsers b))
           (included_suites b) ps = Inr structure"
    and "get_parsers e b ps = Inr prs"
    and "parse (SuiteStructureParser prs (builder_rpa b)) structure = Inl err"
  shows "build e b paths = Inl err"
  using assms by (simp add: build_def)

lemma validate_execution_mode_conflict:
  assumes "\<not> rpa_given st" "self_rpa st = Some that" "rpa s = Some this" "this \<noteq> that"
  shows "validate_execution_mode st s =
           Inl (DataError (conflict_message (if this then ''tasks'' else ''tests'')
                                            (if that then ''tasks'' else ''tests'')))"
  using assms by (auto simp: validate_execution_mode_def)

text \<open>
  Claim C1. In a build without an execution-mode override, when the traversal reaches a
  file whose parsed suite declares a mode (\<open>this\<close>) different from the running mode
  established by the files parsed earlier (\<open>that\<close>), the build fails with the data
  error ``Conflicting execution modes. File has \<open>this\<close> but files parsed earlier have
  \<open>that\<close>. Fix headers or use '--rpa' or '--norpa' options to set the execution mode
  explicitly.'', reported for the source of the new file.
\<close>

theorem mode_conflict_fails_build:
  assumes "builder_rpa b = None"
    and "normalize_paths e paths = Inr ps"
    and "structure_builder e (included_extensions b @ map fst (custom_parsers b))
           (included_suites b) ps = Inr structure"
    and "get_parsers e b ps = Inr prs"
    and "reaches (SuiteStructureParser prs None) structure st (SuiteFile src ext)"
    and "map_of prs ext = Some p"
    and "parse_suite_file p src
           (case parent_defaults st of Some d \<Rightarrow> d | None \<Rightarrow> TestDefaults None []) = Inr s"
    and "self_rpa st = Some that" and "rpa s = Some this" and "this \<noteq> that"
  shows "build e b paths =
           Inl (DataError
             (''Parsing '' @ [CHR 0x27] @ src @ [CHR 0x27] @
              '' failed: Conflicting execution modes. File has '' @
              (if this then ''tasks'' else ''tests'') @
              '' but files parsed earlier have '' @
              (if that then ''tasks'' else ''tests'') @
              ''. Fix headers or use '--rpa' or '--norpa' options to set the execution mode explicitly.''))"
proof -
  let ?st0 = "SuiteStructureParser prs None"
  have fr: "parsers st = prs" "\<not> rpa_given st"
    using reaches_frame(1)[OF assms(5)] by (simp_all add: SuiteStructureParser_def)
  have v: "validate_execution_mode st s =
             Inl (DataError (conflict_message (if this then ''tasks'' else ''tests'')
                                              (if that then ''tasks'' else ''tests'')))"
    using validate_execution_mode_conflict[OF fr(2) assms(8,9,10)] .
  have "build_suite_file st (SuiteFile src ext) =
          Inl (DataError (parsing_failed src
                 (conflict_message (if this then ''tasks'' else ''tests'')
                                   (if that then ''tasks'' else ''tests''))))"
    using fr(1) assms(6,7) v by (simp add: Let_def)
  then have "enter st (SuiteFile src ext) =
          Inl (DataError (parsing_failed src
                 (conflict_message (if this then ''tasks'' else ''tests'')
                                   (if that then ''tasks'' else ''tests''))))"
    by (simp add: visit_file_def)
  from parse_error[OF assms(5) this] assms(1)
  have "parse (SuiteStructureParser prs (builder_rpa b)) structure =
          Inl (DataError (parsing_failed src
                 (conflict_message (if this then ''tasks'' else ''tests'')
                                   (if that then ''tasks'' else ''tests''))))"
    by simp
  from build_parse_error[OF assms(2,3,4) this] show ?thesis
    by (simp add: parsing_failed_def conflict_message_def quote_def)
qed

text \<open>
  Claim C4. When the parser raises a data error with message \<open>msg\<close> on a file node or
  on a directory node that the traversal reaches, the build fails with the data error
  ``Parsing '\<open>source\<close>' failed: \<open>msg\<close>'', where \<open>source\<close> is the file's path for a
  file node and the init file, or else the directory, for a directory node.
\<close>

theorem parse_errors_name_source:
  assumes "normalize_paths e paths = Inr ps"
    and "structure_builder e (included_extensions b @ map fst (custom_parsers b))
           (included_suites b) ps = Inr structure"
    and "get_parsers e b ps = Inr prs"
    and "map_of prs ext = Some p"
  shows "(reaches (SuiteStructureParser prs (builder_rpa b)) structure st (SuiteFile src ext) \<and>
          parse_suite_file p src
            (case parent_defaults st of Some d \<Rightarrow> d | None \<Rightarrow> TestDefaults None []) =
            Inl (DataError msg)
          \<longrightarrow> build e b paths =
                Inl (DataError (''Parsing '' @ [CHR 0x27] @ src @ [CHR 0x27] @
                                '' failed: '' @ msg)))
       \<and> (reaches (SuiteStructureParser prs (builder_rpa b)) structure st
            (SuiteDirectory dsrc init ext multi children) \<and>
          parse_init_file p (case init of Some i \<Rightarrow> Some i | None \<Rightarrow> dsrc)
            (TestDefaults (parent_defaults st) []) = Inl (DataError msg)
          \<longrightarrow> build e b paths =
                Inl (DataError (''Parsing '' @ [CHR 0x27] @
                       str_opt (case init of Some i \<Rightarrow> Some i | None \<Rightarrow> dsrc) @
                       [CHR 0x27] @ '' failed: '' @ msg)))"
proof (intro conjI impI; elim conjE)
  assume r: "reaches (SuiteStructureParser prs (builder_rpa b)) structure st (SuiteFile src ext)"
    and f: "parse_suite_file p src
            (case parent_defaults st of Some d \<Rightarrow> d | None \<Rightarrow> TestDefaults None []) =
            Inl (DataError msg)"
  have fr: "parsers st = prs"
    using reaches_frame(1)[OF r] by (simp add: SuiteStructureParser_def)
  have "enter st (SuiteFile src ext) = Inl (DataError (parsing_failed src msg))"
    using fr assms(4) f by (simp add: visit_file_def Let_def)
  from build_parse_error[OF assms(1,2,3) parse_error[OF r this]]
  show "build e b paths =
          Inl (DataError (''Parsing '' @ [CHR 0x27] @ src @ [CHR 0x27] @ '' failed: '' @ msg))"
    by (simp add: parsing_failed_def quote_def)
next
  let ?source = "case init of Some i \<Rightarrow> Some i | None \<Rightarrow> dsrc"
  assume r: "reaches (SuiteStructureParser prs (builder_rpa b)) structure st
               (SuiteDirectory dsrc init ext multi children)"
    and f: "parse_init_file p ?source (TestDefaults (parent_defaults st) []) = Inl (DataError msg)"
  have fr: "parsers st = prs"
    using reaches_frame(1)[OF r] by (simp add: SuiteStructureParser_def)
  have "enter st (SuiteDirectory dsrc init ext multi children) =
          Inl (DataError (parsing_failed (str_opt ?source) msg))"
    using fr assms(4) f by (simp add: start_directory_def Let_def)
  from build_parse_error[OF assms(1,2,3) parse_error[OF r this]]
  show "build e b paths =
          Inl (DataError (''Parsing '' @ [CHR 0x27] @ str_opt ?source @ [CHR 0x27] @
                          '' failed: '' @ msg))"
    by (simp add: parsing_failed_def quote_def)
qed

text \<open>
  Claim C5. On exit from a directory whose frame is on top of the stack, the frame is
  popped; the directory suite \<open>s\<close> the frame refers to gets the mode of its first child
  exactly when its own mode is unset and it has a child suite, and otherwise the whole
  tree is left as it is.
\<close>

theorem end_directory_adopts_first_child:
  assumes "stack st = (r, d) # rest" and "self_suite st = Some root"
    and "deref root r = Some s"
  shows "\<exists>root'. end_directory st node = Inr (st\<lparr>self_suite := Some root', stack := rest\<rparr>)
           \<and> deref root' r =
               Some (if rpa s = None \<and> suites s \<noteq> [] then set_rpa (rpa (hd (suites s))) s else s)
           \<and> (\<not> (rpa s = None \<and> suites s \<noteq> []) \<longrightarrow> root' = root)"
proof (cases "rpa s = None \<and> suites s \<noteq> []")
  case True
  let ?root' = "update_at r (set_rpa (rpa (hd (suites s)))) root"
  have "end_directory st node = Inr (st\<lparr>self_suite := Some ?root', stack := rest\<rparr>)"
    using assms True by (simp add: end_directory_def)
  moreover have "deref ?root' r = Some (set_rpa (rpa (hd (suites s))) s)"
    using assms(3) by (simp add: deref_update_at)
  ultimately show ?thesis using True by auto
next
  case False
  have "st\<lparr>stack := rest\<rparr> = st\<lparr>self_suite := Some root, stack := rest\<rparr>"
    using assms(2) by simp
  then have "end_directory st node = Inr (st\<lparr>self_suite := Some root, stack := rest\<rparr>)"
    using assms False by (auto simp: end_directory_def)
  then show ?thesis using False assms(3) by auto
qed

text \<open>
  Claim C8. For a directory node flagged as multi-source, the suite built from its init
  file (or from the directory itself when it has none) has the empty name and no source;
  its other attributes are those the parser returned.
\<close>

theorem multi_source_root_anonymized:
  assumes "map_of (parsers st) ext = Some p"
    and "parse_init_file p (case init of Some i \<Rightarrow> Some i | None \<Rightarrow> src)
           (TestDefaults (parent_defaults st) []) = Inr (s, d)"
  shows "\<exists>s'. build_suite_directory st (SuiteDirectory src init ext True children) = Inr (s', d)
           \<and> name s' = '''' \<and> source s' = None
           \<and> suites s' = suites s \<and> tests s' = tests s \<and> rpa s' = rpa s"
  using assms by (simp add: Let_def)

lemma first_declared_append:
  "first_declared (xs @ ys) =
     (case first_declared xs of Some m \<Rightarrow> Some m | None \<Rightarrow> first_declared ys)"
  by (induction xs rule: first_declared.induct) simp_all

lemma reconciled_append:
  "reconciled r (xs @ ys) = reconciled (reconciled r xs) ys"
  by (simp add: reconciled_def first_declared_append split: option.splits)

lemma validate_execution_mode_mode:
  assumes "validate_execution_mode st s = Inr (s', st')" "\<not> rpa_given st"
  shows "self_rpa st' = reconciled (self_rpa st) [rpa s]"
proof (cases "rpa s")
  case None
  with assms show ?thesis
    by (simp add: validate_execution_mode_def reconciled_def split: option.splits)
next
  case (Some m)
  show ?thesis
  proof (cases "self_rpa st")
    case None
    with Some assms show ?thesis
      by (auto simp: validate_execution_mode_def reconciled_def)
  next
    case (Some r)
    with \<open>rpa s = Some m\<close> assms show ?thesis
      by (simp add: validate_execution_mode_def reconciled_def split: if_splits)
  qed
qed

lemma build_suite_file_mode:
  assumes "build_suite_file st (SuiteFile src ext) = Inr (s', st')" "\<not> rpa_given st"
  shows "self_rpa st' =
           reconciled (self_rpa st) (declared_modes (parsers st) (parent_defaults st) (SuiteFile src ext))"
proof -
  let ?d = "case parent_defaults st of Some d \<Rightarrow> d | None \<Rightarrow> TestDefaults None []"
  from assms(1) obtain p where p: "map_of (parsers st) ext = Some p"
    by (cases "map_of (parsers st) ext") (simp_all add: Let_def)
  from assms(1) p obtain s where s: "parse_suite_file p src ?d = Inr s"
    by (cases "parse_suite_file p src ?d") (simp_all add: Let_def)
  from assms(1) p s have "validate_execution_mode st s = Inr (s', st')"
    by (cases "validate_execution_mode st s") (simp_all add: Let_def)
  from validate_execution_mode_mode[OF this assms(2)] p s show ?thesis by simp
qed

lemma visit_file_self_rpa:
  assumes "visit_file st f = Inr st'"
  shows "\<exists>s' st1. build_suite_file st f = Inr (s', st1) \<and> self_rpa st' = self_rpa st1"
proof -
  from assms obtain s' st1 where b: "build_suite_file st f = Inr (s', st1)"
    by (cases "build_suite_file st f") (auto simp: visit_file_def)
  with assms have "self_rpa st' = self_rpa st1"
    by (auto simp: visit_file_def split: option.splits sum.splits)
  with b show ?thesis by blast
qed

lemma visit_file_mode:
  assumes "visit_file st (SuiteFile src ext) = Inr st'" "\<not> rpa_given st"
  shows "self_rpa st' =
           reconciled (self_rpa st) (declared_modes (parsers st) (parent_defaults st) (SuiteFile src ext))"
  using visit_file_self_rpa[OF assms(1)] build_suite_file_mode[OF _ assms(2)] by metis

lemma build_suite_directory_mode:
  assumes "build_suite_directory st (SuiteDirectory src init ext multi children) = Inr (s, d)"
  shows "declared_modes (parsers st) (parent_defaults st) (SuiteDirectory src init ext multi children)
           = declared_modes_children (parsers st) (Some d) children"
proof -
  let ?source = "case init of Some i \<Rightarrow> Some i | None \<Rightarrow> src"
  from assms obtain p where p: "map_of (parsers st) ext = Some p"
    by (cases "map_of (parsers st) ext") (simp_all add: Let_def)
  from assms p obtain s0 where "parse_init_file p ?source (TestDefaults (parent_defaults st) []) = Inr (s0, d)"
    by (cases "parse_init_file p ?source (TestDefaults (parent_defaults st) [])")
       (auto simp: Let_def)
  with p show ?thesis by simp
qed

lemma start_directory_top:
  assumes "start_directory st n = Inr st1"
  shows "\<exists>s d. build_suite_directory st n = Inr (s, d) \<and> parent_defaults st1 = Some d"
proof -
  from assms obtain s d where b: "build_suite_directory st n = Inr (s, d)"
    by (cases "build_suite_directory st n") (auto simp: start_directory_def)
  with assms have "parent_defaults st1 = Some d"
    by (auto simp: start_directory_def parent_defaults_def split: option.splits sum.splits)
  with b show ?thesis by blast
qed

lemma start_directory_mode:
  assumes "start_directory st (SuiteDirectory src init ext multi children) = Inr st1"
  shows "declared_modes (parsers st) (parent_defaults st) (SuiteDirectory src init ext multi children)
           = declared_modes_children (parsers st1) (parent_defaults st1) children"
proof -
  from start_directory_top[OF assms] obtain s d where
    b: "build_suite_directory st (SuiteDirectory src init ext multi children) = Inr (s, d)"
    and d: "parent_defaults st1 = Some d" by blast
  from build_suite_directory_mode[OF b] d start_directory_frame[OF assms] show ?thesis by simp
qed

lemma visit_mode:
  "visit st s = Inr st' \<Longrightarrow> \<not> rpa_given st \<Longrightarrow>
     self_rpa st' = reconciled (self_rpa st) (declared_modes (parsers st) (parent_defaults st) s)"
  "visit_children st cs = Inr st' \<Longrightarrow> \<not> rpa_given st \<Longrightarrow>
     self_rpa st' =
       reconciled (self_rpa st) (declared_modes_children (parsers st) (parent_defaults st) cs)"
proof (induction st s and st cs arbitrary: st' and st' rule: visit_visit_children.induct)
  case (1 st src ext)
  then show ?case by (simp add: visit_file_mode)
next
  case (2 st src init ext multi children)
  from "2.prems" obtain st1 st2 where
    s1: "start_directory st (SuiteDirectory src init ext multi children) = Inr st1" and
    s2: "visit_children st1 children = Inr st2" and
    s3: "end_directory st2 (SuiteDirectory src init ext multi children) = Inr st'"
    by (auto split: sum.splits)
  have g1: "\<not> rpa_given st1" using start_directory_frame[OF s1] "2.prems" by simp
  from "2.IH"[OF s1 s2 g1] start_directory_frame[OF s1] end_directory_frame[OF s3]
    start_directory_mode[OF s1]
  show ?case by simp
next
  case (3 st)
  then show ?case by (simp add: reconciled_def split: option.splits)
next
  case (4 st c cs)
  from "4.prems" obtain st1 where
    s1: "visit st c = Inr st1" and s2: "visit_children st1 cs = Inr st'"
    by (auto split: sum.splits)
  have g1: "\<not> rpa_given st1" using visit_frame(1)[OF s1] "4.prems" by simp
  have pd: "parent_defaults st1 = parent_defaults st" "parsers st1 = parsers st"
    using visit_frame(1)[OF s1] by (simp_all add: parent_defaults_def)
  from "4.IH"(1)[OF s1 "4.prems"(2)] "4.IH"(2)[OF s1 s2 g1] pd
  show ?case by (simp add: reconciled_append)
qed

text \<open>
  Claim C10. \<open>parse\<close> returns the root built by the traversal with its mode replaced by the
  running mode at the end of the traversal, whatever mode the root had; that running mode
  is the override when one was given, else the first mode declared by a parsed file in
  traversal order, else unset.
\<close>

theorem root_mode_is_running_mode:
  assumes "parse (SuiteStructureParser ps r) structure = Inr t"
  shows "\<exists>st' root. visit (SuiteStructureParser ps r) structure = Inr st'
           \<and> self_suite st' = Some root \<and> t = set_rpa (self_rpa st') root
           \<and> rpa t = self_rpa st'
           \<and> self_rpa st' = reconciled r (declared_modes ps None structure)"
proof -
  let ?st = "SuiteStructureParser ps r"
  from assms obtain st' root where v: "visit ?st structure = Inr st'"
    and root: "self_suite st' = Some root" and t: "t = set_rpa (self_rpa st') root"
    by (auto simp: parse_def split: sum.splits option.splits)
  have "self_rpa st' = reconciled r (declared_modes ps None structure)"
  proof (cases r)
    case None
    then have "\<not> rpa_given ?st" by (simp add: SuiteStructureParser_def)
    from visit_mode(1)[OF v this] show ?thesis
      by (simp add: SuiteStructureParser_def parent_defaults_def)
  next
    case (Some m)
    then have "rpa_given ?st" by (simp add: SuiteStructureParser_def)
    from visit_rpa_given(1)[OF v this] Some show ?thesis
      by (simp add: SuiteStructureParser_def reconciled_def)
  qed
  with v root t show ?thesis by simp
qed

lemma rpa_remove_empty_suites: "rpa (remove_empty_suites pr s) = rpa s"
  by (cases s) simp

lemma build_success:
  assumes "build e b paths = Inr t"
  shows "\<exists>ps structure prs s.
           normalize_paths e paths = Inr ps
         \<and> structure_builder e (included_extensions b @ map fst (custom_parsers b))
              (included_suites b) ps = Inr structure
         \<and> get_parsers e b ps = Inr prs
         \<and> parse (SuiteStructureParser prs (builder_rpa b)) structure = Inr s
         \<and> t = remove_empty_suites (1 < length ps) s"
  using assms unfolding build_def
  by (auto split: sum.splits)

text \<open>
  Claim C2. In a build with an explicit override \<open>m\<close>: at every node the traversal
  reaches the reconciler accepts any suite, overwrites its mode with \<open>m\<close> and leaves the
  running mode alone, so it never raises a conflict; every file suite that is parsed
  leaves \<open>build_suite_file\<close> with mode \<open>m\<close>; and the root of a finished build has
  mode \<open>m\<close>.
\<close>

theorem override_wins:
  assumes "builder_rpa b = Some m"
    and "normalize_paths e paths = Inr ps"
    and "structure_builder e (included_extensions b @ map fst (custom_parsers b))
           (included_suites b) ps = Inr structure"
    and "get_parsers e b ps = Inr prs"
  shows "(reaches (SuiteStructureParser prs (Some m)) structure st n \<longrightarrow>
            validate_execution_mode st s = Inr (set_rpa (Some m) s, st))
       \<and> (reaches (SuiteStructureParser prs (Some m)) structure st (SuiteFile src ext) \<and>
          map_of prs ext = Some p \<and>
          parse_suite_file p src
            (case parent_defaults st of Some d \<Rightarrow> d | None \<Rightarrow> TestDefaults None []) = Inr s
          \<longrightarrow> build_suite_file st (SuiteFile src ext) = Inr (set_rpa (Some m) s, st))
       \<and> (build e b paths = Inr t \<longrightarrow> rpa t = Some m)"
proof -
  let ?st0 = "SuiteStructureParser prs (Some m)"
  have g0: "rpa_given ?st0" "self_rpa ?st0 = Some m" "parsers ?st0 = prs"
    by (simp_all add: SuiteStructureParser_def)
  have given: "rpa_given st' \<and> self_rpa st' = Some m \<and> parsers st' = prs"
    if "reaches ?st0 structure st' n'" for st' n'
    using reaches_frame(1)[OF that] reaches_rpa_given(1)[OF that g0(1)] g0 by simp
  have v: "validate_execution_mode st' s' = Inr (set_rpa (Some m) s', st')"
    if "reaches ?st0 structure st' n'" for st' n' s'
    using given[OF that] validate_execution_mode_given[of st' s'] by simp
  have a: "reaches ?st0 structure st n \<longrightarrow>
             validate_execution_mode st s = Inr (set_rpa (Some m) s, st)"
    using v by blast
  have b: "reaches ?st0 structure st (SuiteFile src ext) \<and> map_of prs ext = Some p \<and>
          parse_suite_file p src
            (case parent_defaults st of Some d \<Rightarrow> d | None \<Rightarrow> TestDefaults None []) = Inr s
          \<longrightarrow> build_suite_file st (SuiteFile src ext) = Inr (set_rpa (Some m) s, st)"
  proof (intro impI; elim conjE)
    assume r: "reaches ?st0 structure st (SuiteFile src ext)"
      and p: "map_of prs ext = Some p"
      and s: "parse_suite_file p src
            (case parent_defaults st of Some d \<Rightarrow> d | None \<Rightarrow> TestDefaults None []) = Inr s"
    from given[OF r] p s v[OF r, of s]
    show "build_suite_file st (SuiteFile src ext) = Inr (set_rpa (Some m) s, st)"
      by (simp add: Let_def)
  qed
  have c: "build e b paths = Inr t \<longrightarrow> rpa t = Some m"
  proof
    assume "build e b paths = Inr t"
    from build_success[OF this] assms obtain s' where
      p: "parse ?st0 structure = Inr s'" and t: "t = remove_empty_suites (1 < length ps) s'"
      by auto
    from p obtain st' root where v': "visit ?st0 structure = Inr st'"
      and s': "s' = set_rpa (self_rpa st') root"
      by (auto simp: parse_def split: sum.splits option.splits)
    from visit_rpa_given(1)[OF v' g0(1)] g0(2) s' t
    show "rpa t = Some m" by (simp add: rpa_remove_empty_suites)
  qed
  from a b c show ?thesis by blast
qed

text \<open>
  Claim C3. Path validation fails on an empty sequence of paths; when some path does not
  exist it fails with one error that lists every non-existing path, in input order; and
  when all paths exist it returns the normalized absolute paths in input order.
\<close>

theorem normalize_paths_cases:
  "normalize_paths e [] = Inl (DataError ''One or more source paths required.'')
   \<and> (ps \<noteq> [] \<and> (\<exists>p \<in> set ps. \<not> path_exists e (normpath_absolute e p)) \<longrightarrow>
        normalize_paths e ps =
          Inl (DataError (''Parsing '' @
                 seq2str e (filter (\<lambda>p. \<not> path_exists e p) (map (normpath_absolute e) ps)) @
                 '' failed: File or directory to execute does not exist.'')))
   \<and> (qs \<noteq> [] \<and> (\<forall>p \<in> set qs. path_exists e (normpath_absolute e p)) \<longrightarrow>
        normalize_paths e qs = Inr (map (normpath_absolute e) qs))"
proof (intro conjI impI; (elim conjE)?)
  show "normalize_paths e [] = Inl (DataError ''One or more source paths required.'')"
    by (simp add: normalize_paths_def)
next
  assume "ps \<noteq> []" and ex: "\<exists>p \<in> set ps. \<not> path_exists e (normpath_absolute e p)"
  from ex have "filter (\<lambda>p. \<not> path_exists e p) (map (normpath_absolute e) ps) \<noteq> []"
    by (auto simp: filter_empty_conv)
  with \<open>ps \<noteq> []\<close> show "normalize_paths e ps =
          Inl (DataError (''Parsing '' @
                 seq2str e (filter (\<lambda>p. \<not> path_exists e p) (map (normpath_absolute e) ps)) @
                 '' failed: File or directory to execute does not exist.''))"
    by (simp add: normalize_paths_def Let_def)
next
  assume "qs \<noteq> []" and all: "\<forall>p \<in> set qs. path_exists e (normpath_absolute e p)"
  from all have "filter (\<lambda>p. \<not> path_exists e p) (map (normpath_absolute e) qs) = []"
    by (auto simp: filter_empty_conv)
  with \<open>qs \<noteq> []\<close> show "normalize_paths e qs = Inr (map (normpath_absolute e) qs)"
    by (simp add: normalize_paths_def Let_def)
qed

lemma validate_children_find:
  "validate_children cs =
     (case find (\<lambda>c. \<not> has_tests c) cs of
        Some c \<Rightarrow> Inl (DataError (no_tests_message (name c)))
      | None \<Rightarrow> Inr ())"
  by (induction cs) simp_all

text \<open>
  Claim C6. After a successful parse, \<open>build\<close> skips the non-empty validation when suite
  name filters were given or empty suites are allowed; otherwise, with several input
  paths, the first direct child of the root without tests makes the build fail with
  ``Suite '\<open>name\<close>' contains no tests or tasks.'' for that child, and with a single
  input path the root itself must contain tests or the build fails with that error for
  the root.
\<close>

theorem validate_not_empty_cases:
  assumes "normalize_paths e paths = Inr ps"
    and "structure_builder e (included_extensions b @ map fst (custom_parsers b))
           (included_suites b) ps = Inr structure"
    and "get_parsers e b ps = Inr prs"
    and "parse (SuiteStructureParser prs (builder_rpa b)) structure = Inr s"
  shows "build e b paths =
           (if included_suites b \<noteq> [] \<or> allow_empty_suite b
            then Inr (remove_empty_suites (1 < length ps) s)
            else if 1 < length ps
            then (case find (\<lambda>c. \<not> has_tests c) (suites s) of
                    Some c \<Rightarrow>
                      Inl (DataError (''Suite '' @ [CHR 0x27] @ name c @ [CHR 0x27] @
                                      '' contains no tests or tasks.''))
                  | None \<Rightarrow> Inr (remove_empty_suites True s))
            else if has_tests s then Inr (remove_empty_suites False s)
            else Inl (DataError (''Suite '' @ [CHR 0x27] @ name s @ [CHR 0x27] @
                                 '' contains no tests or tasks.'')))"
  using assms
  by (simp add: build_def validate_children_find no_tests_message_def quote_def
        split: option.splits)

lemma add_parser_None: "map_of (add_parser std robot ext ps) None = map_of ps None"
  by (simp add: add_parser_def Let_def update_conv')

lemma fold_add_parser_None:
  "map_of (fold (add_parser std robot) exts ps) None = map_of ps None"
  by (induction exts arbitrary: ps) (simp_all add: add_parser_None)

lemma get_parsers_None:
  assumes "get_parsers e b paths = Inr prs"
  shows "map_of prs None = Some (no_init_file_directory_parser e)"
  using assms
  by (auto simp: get_parsers_def Let_def fold_add_parser_None split: option.splits)

lemma parse_nested_dirs:
  assumes "map_of prs None = Some directory_parser"
  shows "parse (SuiteStructureParser prs r) nested_dirs = Inr (nested_tree r)"
  using assms
  by (simp add: parse_def nested_dirs_def nested_tree_def SuiteStructureParser_def
        start_directory_def end_directory_def attach_def parent_defaults_def
        directory_parser_def Let_def)

lemma build_nested:
  assumes "build example_env b [''/a''] = Inr t"
  shows "t = TestSuite ''/a'' (Some ''/a'') [] [] (builder_rpa b)"
proof -
  from build_success[OF assms] obtain ps node prs s where
    n: "normalize_paths example_env [''/a''] = Inr ps" and
    sb: "structure_builder example_env (included_extensions b @ map fst (custom_parsers b))
           (included_suites b) ps = Inr node" and
    gp: "get_parsers example_env b ps = Inr prs" and
    p: "parse (SuiteStructureParser prs (builder_rpa b)) node = Inr s" and
    t: "t = remove_empty_suites (1 < length ps) s" by blast
  from n have ps: "ps = [''/a'']" by (simp add: normalize_paths_def example_env_def)
  from sb ps have st: "node = nested_dirs"
    by (simp add: example_env_def example_structure_def)
  from get_parsers_None[OF gp] have "map_of prs None = Some directory_parser"
    by (simp add: example_env_def)
  from parse_nested_dirs[OF this] p st have "s = nested_tree (builder_rpa b)" by simp
  with t ps show ?thesis by (simp add: nested_tree_def)
qed

lemma any_has_tests_iff: "any_has_tests cs = (\<exists>c \<in> set cs. has_tests c)"
  by (induction cs) auto

lemma has_tests_remove_empty_suites: "has_tests (remove_empty_suites pr s) = has_tests s"
proof (induction pr s rule: remove_empty_suites.induct)
  case (1 pr n src cs ts r)
  then show ?case by (auto simp: any_has_tests_iff Let_def)
qed

lemma suites_remove_empty_suites:
  "suites (remove_empty_suites False s) =
     filter has_tests (map (remove_empty_suites False) (suites s))"
  by (cases s) simp

text \<open>
  Claim C7, as amended. Empty-suite pruning is applied on every build that returns a
  tree, under every builder configuration: the result is the parsed tree after
  \<open>remove_empty_suites\<close>, which keeps the direct children of the root only when several
  input paths were given; with a single input path every direct child that is left
  contains tests.
\<close>

theorem pruning_always_applied:
  assumes "build e b paths = Inr t"
  shows "\<exists>ps structure prs s.
           normalize_paths e paths = Inr ps
         \<and> structure_builder e (included_extensions b @ map fst (custom_parsers b))
              (included_suites b) ps = Inr structure
         \<and> get_parsers e b ps = Inr prs
         \<and> parse (SuiteStructureParser prs (builder_rpa b)) structure = Inr s
         \<and> t = remove_empty_suites (1 < length ps) s
         \<and> (length ps = 1 \<longrightarrow> list_all has_tests (suites t))"
proof -
  from build_success[OF assms] obtain ps node prs s where
    h: "normalize_paths e paths = Inr ps"
       "structure_builder e (included_extensions b @ map fst (custom_parsers b))
              (included_suites b) ps = Inr node"
       "get_parsers e b ps = Inr prs"
       "parse (SuiteStructureParser prs (builder_rpa b)) node = Inr s"
       "t = remove_empty_suites (1 < length ps) s" by blast
  have "length ps = 1 \<longrightarrow> list_all has_tests (suites t)"
    using h(5) by (auto simp: suites_remove_empty_suites list_all_iff)
  with h show ?thesis by blast
qed

lemma map_of_fold_update:
  "map_of (fold (\<lambda>ext d. AList.update ext cp d) exts acc) x =
     (if x \<in> set exts then Some cp else map_of acc x)"
  by (induction exts arbitrary: acc) (auto simp: update_conv')

lemma get_custom_parsers_from_append:
  "get_custom_parsers_from e acc (xs @ ys) =
     (case get_custom_parsers_from e acc xs of
        Inl err \<Rightarrow> Inl err
      | Inr acc' \<Rightarrow> get_custom_parsers_from e acc' ys)"
  by (induction xs arbitrary: acc) (auto split: sum.splits prod.splits)

lemma get_custom_parsers_from_unclaimed:
  assumes "get_custom_parsers_from e acc ps = Inr reg"
    and "\<forall>a \<in> set ps. \<forall>nm obj cp. resolve_parser e a = Inr (nm, obj) \<and> custom_parser e obj = Inr cp
           \<longrightarrow> ext \<notin> set (extensions cp)"
  shows "map_of reg ext = map_of acc ext"
  using assms
proof (induction ps arbitrary: acc)
  case Nil
  then show ?case by simp
next
  case (Cons a ps)
  from Cons.prems(1) obtain nm obj where r: "resolve_parser e a = Inr (nm, obj)"
    by (cases "resolve_parser e a") auto
  from Cons.prems(1) r obtain cp where c: "custom_parser e obj = Inr cp"
    by (cases "custom_parser e obj") auto
  from Cons.prems(1) r c have
    rest: "get_custom_parsers_from e (fold (\<lambda>ext d. AList.update ext cp d) (extensions cp) acc) ps = Inr reg"
    by simp
  from Cons.prems(2) r c have "ext \<notin> set (extensions cp)" by auto
  moreover have
    "\<forall>a \<in> set ps. \<forall>nm obj cp. resolve_parser e a = Inr (nm, obj) \<and> custom_parser e obj = Inr cp
           \<longrightarrow> ext \<notin> set (extensions cp)"
    using Cons.prems(2) by (meson list.set_intros(2))
  from Cons.IH[OF rest this] have
    "map_of reg ext = map_of (fold (\<lambda>ext d. AList.update ext cp d) (extensions cp) acc) ext" .
  ultimately show ?case by (simp add: map_of_fold_update)
qed

lemma get_custom_parsers_from_last:
  assumes "get_custom_parsers_from e acc (pre @ a # post) = Inr reg"
    and "resolve_parser e a = Inr (nm, obj)" and "custom_parser e obj = Inr cp"
    and "ext \<in> set (extensions cp)"
    and "\<forall>a' \<in> set post. \<forall>nm' obj' cp'.
           resolve_parser e a' = Inr (nm', obj') \<and> custom_parser e obj' = Inr cp'
           \<longrightarrow> ext \<notin> set (extensions cp')"
  shows "map_of reg ext = Some cp"
proof -
  from assms(1) obtain acc' where
    pre: "get_custom_parsers_from e acc pre = Inr acc'" and
    rest: "get_custom_parsers_from e acc' (a # post) = Inr reg"
    by (auto simp: get_custom_parsers_from_append split: sum.splits)
  from rest assms(2,3) have
    "get_custom_parsers_from e (fold (\<lambda>ext d. AList.update ext cp d) (extensions cp) acc') post = Inr reg"
    by simp
  from get_custom_parsers_from_unclaimed[OF this assms(5)] assms(4)
  show ?thesis by (simp add: map_of_fold_update)
qed

lemma get_custom_parsers_from_failure:
  assumes "get_custom_parsers_from e acc pre = Inr acc'"
    and "resolve_parser e a = Inr (nm, obj)" and "custom_parser e obj = Inl err"
  shows "get_custom_parsers_from e acc (pre @ a # post) = Inl (DataError (importing_failed nm err))"
  using assms by (simp add: get_custom_parsers_from_append)

text \<open>
  Claim C9. When the registration of custom parsers succeeds, an extension claimed by
  several of them is mapped to the last parser in the sequence that claims it; and when
  the parsers before it are registered and wrapping a given parser object fails, the
  registration fails with ``Importing parser '\<open>name\<close>' failed: \<open>err\<close>'' for the type
  name of that object.
\<close>

theorem custom_parser_registration:
  "(get_custom_parsers e (pre @ a # post) = Inr reg \<and>
    resolve_parser e a = Inr (nm, obj) \<and> custom_parser e obj = Inr cp \<and>
    ext \<in> set (extensions cp) \<and>
    (\<forall>a' \<in> set post. \<forall>nm' obj' cp'.
        resolve_parser e a' = Inr (nm', obj') \<and> custom_parser e obj' = Inr cp'
        \<longrightarrow> ext \<notin> set (extensions cp'))
    \<longrightarrow> map_of reg ext = Some cp)
 \<and> (get_custom_parsers e pre2 = Inr reg2 \<and> custom_parser e obj2 = Inl err
    \<longrightarrow> get_custom_parsers e (pre2 @ ByObject obj2 # post2) =
          Inl (DataError (''Importing parser '' @ [CHR 0x27] @ type_name e obj2 @ [CHR 0x27] @
                          '' failed: '' @ err)))"
proof (intro conjI impI; elim conjE)
  assume "get_custom_parsers e (pre @ a # post) = Inr reg"
    "resolve_parser e a = Inr (nm, obj)" "custom_parser e obj = Inr cp"
    "ext \<in> set (extensions cp)"
    "\<forall>a' \<in> set post. \<forall>nm' obj' cp'.
        resolve_parser e a' = Inr (nm', obj') \<and> custom_parser e obj' = Inr cp'
        \<longrightarrow> ext \<notin> set (extensions cp')"
  then show "map_of reg ext = Some cp"
    unfolding get_custom_parsers_def by (rule get_custom_parsers_from_last)
next
  assume "get_custom_parsers e pre2 = Inr reg2" "custom_parser e obj2 = Inl err"
  then have "get_custom_parsers e (pre2 @ ByObject obj2 # post2) =
          Inl (DataError (importing_failed (type_name e obj2) err))"
    unfolding get_custom_parsers_def
    by (intro get_custom_parsers_from_failure[where obj = obj2]) simp_all
  then show "get_custom_parsers e (pre2 @ ByObject obj2 # post2) =
          Inl (DataError (''Importing parser '' @ [CHR 0x27] @ type_name e obj2 @ [CHR 0x27] @
                          '' failed: '' @ err))"
    by (simp add: importing_failed_def quote_def)
qed

lemma normalize_ext_robot: "normalize_ext ''.robot'' = ''robot''"
  by (simp add: normalize_ext_def lower_char_def)

lemma normalize_ext_rbt: "normalize_ext ''.RBT'' = ''rbt''"
  by code_simp

lemma add_parser_present:
  "add_parser std robot ''.robot'' example_parsers = example_parsers"
  by (simp add: add_parser_def example_parsers_def normalize_ext_robot)

lemma fold_add_parser_present:
  "fold (add_parser std robot) (map (\<lambda>p. ''.robot'') xs) example_parsers = example_parsers"
  by (induction xs) (simp_all add: add_parser_present)

lemma example_get_parsers:
  "get_parsers example_env (example_builder r a) ps = Inr example_parsers"
proof -
  have "fold (add_parser (get_standard_parsers example_env) example_parser)
          [''.robot'', ''.RBT'']
          [(None, directory_parser)] = example_parsers"
    by (simp add: add_parser_def example_env_def example_parsers_def
          get_standard_parsers_def normalize_ext_robot normalize_ext_rbt)
  then show ?thesis
    by (simp add: get_parsers_def example_builder_def example_env_def
          get_standard_parsers_def fold_add_parser_present)
qed

section \<open>The properties on the example inputs\<close>

lemma example_parsers_lookup:
  "map_of example_parsers None = Some directory_parser"
  "map_of example_parsers (Some ''robot'') = Some example_parser"
  by (simp_all add: example_parsers_def)

lemma example_normalize:
  "normalize_paths example_env [''/d''] = Inr [''/d'']"
  "normalize_paths example_env [''/e''] = Inr [''/e'']"
  "normalize_paths example_env [''/a''] = Inr [''/a'']"
  "normalize_paths example_env [''/bad''] = Inr [''/bad'']"
  "normalize_paths example_env [''/d/broken.robot''] = Inr [''/d/broken.robot'']"
  "normalize_paths example_env [''/e'', ''/f''] = Inr [''/e'', ''/f'']"
  by (simp_all add: normalize_paths_def example_env_def)

lemma example_structure_builder:
  "structure_builder example_env exts incl ps = example_structure ps"
  by (simp add: example_env_def)

lemma start_mixed:
  "start_directory (SuiteStructureParser example_parsers r)
     (SuiteDirectory (Some ''/d'') None None False cs) = Inr (after_start r)"
  by (simp add: start_directory_def SuiteStructureParser_def after_start_def
        example_parsers_lookup parent_defaults_def directory_parser_def)

lemma visit_tests_no_override:
  "visit (after_start None) (SuiteFile ''/d/tests.robot'' (Some ''robot'')) = Inr after_tests"
  by (simp add: visit_file_def after_start_def after_tests_def example_parsers_lookup
        parent_defaults_def example_parser_def validate_execution_mode_def tests_suite_def
        attach_def)

lemma reaches_tasks:
  "reaches (SuiteStructureParser example_parsers None) mixed_dir after_tests
     (SuiteFile ''/d/tasks.robot'' (Some ''robot''))"
  unfolding mixed_dir_def
  by (rule below[OF start_mixed], rule later[OF visit_tests_no_override], rule first, rule here)

theorem mode_conflict_fails_build_witness:
  "reaches (SuiteStructureParser example_parsers None) mixed_dir after_tests
     (SuiteFile ''/d/tasks.robot'' (Some ''robot''))
   \<and> self_rpa after_tests = Some False
   \<and> rpa (tasks_suite ''/d/tasks.robot'') = Some True
   \<and> build example_env (example_builder None False) [''/d''] =
       Inl (DataError
         ''Parsing '/d/tasks.robot' failed: Conflicting execution modes. File has tasks but files parsed earlier have tests. Fix headers or use '--rpa' or '--norpa' options to set the execution mode explicitly.'')"
proof -
  have h: "self_rpa after_tests = Some False" "rpa (tasks_suite ''/d/tasks.robot'') = Some True"
    by (simp_all add: after_tests_def tasks_suite_def)
  have p: "parse_suite_file example_parser ''/d/tasks.robot''
             (case parent_defaults after_tests of Some d \<Rightarrow> d | None \<Rightarrow> TestDefaults None [])
           = Inr (tasks_suite ''/d/tasks.robot'')"
    by (simp add: example_parser_def)
  have sb: "structure_builder example_env
              (included_extensions (example_builder None False) @
               map fst (custom_parsers (example_builder None False)))
              (included_suites (example_builder None False)) [''/d''] = Inr mixed_dir"
    by (simp add: example_structure_builder example_structure_def)
  have b: "builder_rpa (example_builder None False) = None" "True \<noteq> False"
    by (simp_all add: example_builder_def)
  from mode_conflict_fails_build[OF b(1) example_normalize(1) sb example_get_parsers reaches_tasks
             example_parsers_lookup(2) p h b(2)]
  have "build example_env (example_builder None False) [''/d''] =
       Inl (DataError
         ''Parsing '/d/tasks.robot' failed: Conflicting execution modes. File has tasks but files parsed earlier have tests. Fix headers or use '--rpa' or '--norpa' options to set the execution mode explicitly.'')"
    by simp
  with h reaches_tasks show ?thesis by simp
qed

lemma example_structures:
  "structure_builder example_env exts incl [''/d''] = Inr mixed_dir"
  "structure_builder example_env exts incl [''/e''] = Inr late_dir"
  "structure_builder example_env exts incl [''/a''] = Inr nested_dirs"
  "structure_builder example_env exts incl [''/bad''] = Inr bad_init_dir"
  "structure_builder example_env exts incl [''/d/broken.robot''] =
     Inr (SuiteFile ''/d/broken.robot'' (Some ''robot''))"
  "structure_builder example_env exts incl [''/e'', ''/f''] = Inr two_roots"
  by (simp_all add: example_structure_builder example_structure_def)

lemmas example_eval =
  parse_def SuiteStructureParser_def visit_file_def start_directory_def end_directory_def
  attach_def parent_defaults_def validate_execution_mode_def Let_def
  example_parsers_lookup example_parser_def directory_parser_def
  tests_suite_def tasks_suite_def empty_suite_def

lemma parse_mixed_override:
  "parse (SuiteStructureParser example_parsers (Some True)) mixed_dir = Inr overridden_tree"
  by (simp add: example_eval mixed_dir_def overridden_tree_def)

lemma build_mixed_override:
  "build example_env (example_builder (Some True) False) [''/d''] = Inr overridden_tree"
proof -
  have "parse (SuiteStructureParser example_parsers
                 (builder_rpa (example_builder (Some True) False))) mixed_dir
          = Inr overridden_tree"
    using parse_mixed_override by (simp add: example_builder_def)
  then show ?thesis
    by (simp add: build_def example_normalize example_structures example_get_parsers)
       (simp add: example_builder_def overridden_tree_def)
qed

lemma reaches_tests_override:
  "reaches (SuiteStructureParser example_parsers (Some True)) mixed_dir (after_start (Some True))
     (SuiteFile ''/d/tests.robot'' (Some ''robot''))"
  unfolding mixed_dir_def
  by (rule below[OF start_mixed], rule first, rule here)

theorem override_wins_witness:
  "reaches (SuiteStructureParser example_parsers (Some True)) mixed_dir (after_start (Some True))
     (SuiteFile ''/d/tests.robot'' (Some ''robot''))
   \<and> rpa (tests_suite ''/d/tests.robot'') = Some False
   \<and> validate_execution_mode (after_start (Some True)) (tests_suite ''/d/tests.robot'') =
       Inr (set_rpa (Some True) (tests_suite ''/d/tests.robot''), after_start (Some True))
   \<and> build_suite_file (after_start (Some True)) (SuiteFile ''/d/tests.robot'' (Some ''robot'')) =
       Inr (set_rpa (Some True) (tests_suite ''/d/tests.robot''), after_start (Some True))
   \<and> build example_env (example_builder (Some True) False) [''/d''] = Inr overridden_tree
   \<and> rpa overridden_tree = Some True"
proof -
  have b: "builder_rpa (example_builder (Some True) False) = Some True"
    by (simp add: example_builder_def)
  have p: "parse_suite_file example_parser ''/d/tests.robot''
             (case parent_defaults (after_start (Some True)) of
                Some d \<Rightarrow> d | None \<Rightarrow> TestDefaults None [])
           = Inr (tests_suite ''/d/tests.robot'')"
    by (simp add: example_parser_def)
  have r: "rpa (tests_suite ''/d/tests.robot'') = Some False"
    by (simp add: tests_suite_def)
  from override_wins[OF b example_normalize(1) example_structures(1) example_get_parsers,
          where st = "after_start (Some True)"
            and n = "SuiteFile ''/d/tests.robot'' (Some ''robot'')"
            and s = "tests_suite ''/d/tests.robot''" and src = "''/d/tests.robot''"
            and ext = "Some ''robot''" and p = example_parser and t = overridden_tree]
    reaches_tests_override example_parsers_lookup(2) p build_mixed_override r
  show ?thesis by simp
qed

theorem normalize_paths_cases_witness:
  "normalize_paths example_env [] = Inl (DataError ''One or more source paths required.'')
   \<and> normalize_paths example_env [''/d'', ''/missing'', ''/e'', ''/gone''] =
       Inl (DataError (''Parsing '' @ seq2str example_env [''/missing'', ''/gone''] @
              '' failed: File or directory to execute does not exist.''))
   \<and> normalize_paths example_env [''/e'', ''/d''] = Inr [''/e'', ''/d'']"
  using normalize_paths_cases[of example_env "[''/d'', ''/missing'', ''/e'', ''/gone'']" "[''/e'', ''/d'']"]
  by (simp add: example_env_def)

lemma reaches_root: "reaches st s st s"
  by (rule here)

theorem parse_errors_name_source_witness:
  "build example_env (example_builder None False) [''/d/broken.robot''] =
     Inl (DataError ''Parsing '/d/broken.robot' failed: Unrecognized section header.'')
   \<and> build example_env (example_builder None False) [''/bad''] =
     Inl (DataError ''Parsing '/bad/__init__.robot' failed: Invalid setting.'')"
proof -
  let ?b = "example_builder None False"
  let ?st = "SuiteStructureParser example_parsers (builder_rpa ?b)"
  have f: "parse_suite_file example_parser ''/d/broken.robot''
             (case parent_defaults ?st of Some d \<Rightarrow> d | None \<Rightarrow> TestDefaults None [])
           = Inl (DataError ''Unrecognized section header.'')"
    by (simp add: example_parser_def)
  have d: "parse_init_file example_parser
             (case Some ''/bad/__init__.robot'' of Some i \<Rightarrow> Some i | None \<Rightarrow> Some ''/bad'')
             (TestDefaults (parent_defaults ?st) [])
           = Inl (DataError ''Invalid setting.'')"
    by (simp add: example_parser_def)
  from parse_errors_name_source[OF example_normalize(5) example_structures(5) example_get_parsers
            example_parsers_lookup(2),
          where st = ?st and src = "''/d/broken.robot''"
            and msg = "''Unrecognized section header.''"] f
  have 1: "build example_env ?b [''/d/broken.robot''] =
     Inl (DataError ''Parsing '/d/broken.robot' failed: Unrecognized section header.'')"
    using reaches_root by simp
  from parse_errors_name_source[OF example_normalize(4) example_structures(4) example_get_parsers
            example_parsers_lookup(2),
          where st = ?st and dsrc = "Some ''/bad''" and init = "Some ''/bad/__init__.robot''"
            and multi = False and children = "[]" and msg = "''Invalid setting.''"] d
  have 2: "build example_env ?b [''/bad''] =
     Inl (DataError ''Parsing '/bad/__init__.robot' failed: Invalid setting.'')"
    using reaches_root by (simp add: bad_init_dir_def)
  from 1 2 show ?thesis by simp
qed

theorem end_directory_adopts_first_child_witness:
  "deref (open_tree None) [0] =
        Some (TestSuite ''/r/sub'' (Some ''/r/sub'') [tasks_suite ''/r/sub/tasks.robot''] [] None)
   \<and> end_directory (exit_state None) (SuiteDirectory (Some ''/r/sub'') None None False []) =
        Inr ((exit_state None)\<lparr>self_suite := Some (open_tree (Some True)),
                                 stack := [([], TestDefaults None [])]\<rparr>)
   \<and> deref (open_tree (Some False)) [0] =
        Some (TestSuite ''/r/sub'' (Some ''/r/sub'') [tasks_suite ''/r/sub/tasks.robot''] []
                (Some False))
   \<and> end_directory (exit_state (Some False))
          (SuiteDirectory (Some ''/r/sub'') None None False []) =
        Inr ((exit_state (Some False))\<lparr>self_suite := Some (open_tree (Some False)),
                                         stack := [([], TestDefaults None [])]\<rparr>)"
proof -
  let ?sub = "\<lambda>r. TestSuite ''/r/sub'' (Some ''/r/sub'') [tasks_suite ''/r/sub/tasks.robot''] [] r"
  let ?node = "SuiteDirectory (Some ''/r/sub'') None None False []"
  have h: "stack (exit_state r) = ([0], TestDefaults (Some (TestDefaults None [])) []) #
                               [([], TestDefaults None [])]"
    "self_suite (exit_state r) = Some (open_tree r)"
    "deref (open_tree r) [0] = Some (?sub r)" for r
    by (simp_all add: exit_state_def open_tree_def)
  from end_directory_adopts_first_child[OF h, where node = ?node and r1 = None]
  obtain root1 where
    e1: "end_directory (exit_state None) ?node =
          Inr ((exit_state None)\<lparr>self_suite := Some root1,
                                   stack := [([], TestDefaults None [])]\<rparr>)"
    and d1: "deref root1 [0] = Some (set_rpa (Some True) (?sub None))"
    by (auto simp: tasks_suite_def)
  have 1: "end_directory (exit_state None) ?node =
          Inr ((exit_state None)\<lparr>self_suite := Some (open_tree (Some True)),
                                   stack := [([], TestDefaults None [])]\<rparr>)"
    by (simp add: end_directory_def exit_state_def open_tree_def tasks_suite_def)
  from end_directory_adopts_first_child[OF h, where node = ?node and r1 = "Some False"]
  have 2: "end_directory (exit_state (Some False)) ?node =
          Inr ((exit_state (Some False))\<lparr>self_suite := Some (open_tree (Some False)),
                                           stack := [([], TestDefaults None [])]\<rparr>)"
    by auto
  from 1 2 h(3) show ?thesis by simp
qed

lemma parse_two_roots:
  "parse (SuiteStructureParser example_parsers None) two_roots = Inr two_roots_tree"
  by (simp add: example_eval two_roots_def late_dir_def two_roots_tree_def late_tree_def)

lemma parse_late:
  "parse (SuiteStructureParser example_parsers None) late_dir = Inr (late_tree (Some True))"
  by (simp add: example_eval late_dir_def late_tree_def)

theorem validate_not_empty_cases_witness:
  "parse (SuiteStructureParser example_parsers None) two_roots = Inr two_roots_tree
   \<and> find (\<lambda>c. \<not> has_tests c) (suites two_roots_tree) =
        Some (TestSuite ''/f'' (Some ''/f'') [] [] None)
   \<and> build example_env (example_builder None False) [''/e'', ''/f''] =
        Inl (DataError ''Suite '/f' contains no tests or tasks.'')
   \<and> build example_env (example_builder None True) [''/e'', ''/f''] = Inr pruned_two_roots
   \<and> build example_env (example_builder None False) [''/e''] =
        Inr (TestSuite ''/e'' (Some ''/e'') [tasks_suite ''/e/tasks.robot''] [] (Some True))"
proof -
  have p: "parse (SuiteStructureParser example_parsers (builder_rpa (example_builder None a)))
             two_roots = Inr two_roots_tree" for a
    using parse_two_roots by (simp add: example_builder_def)
  have q: "parse (SuiteStructureParser example_parsers (builder_rpa (example_builder None a)))
             late_dir = Inr (late_tree (Some True))" for a
    using parse_late by (simp add: example_builder_def)
  have f: "find (\<lambda>c. \<not> has_tests c) (suites two_roots_tree) =
        Some (TestSuite ''/f'' (Some ''/f'') [] [] None)"
    by (simp add: two_roots_tree_def late_tree_def tasks_suite_def empty_suite_def)
  from validate_not_empty_cases[OF example_normalize(6) example_structures(6) example_get_parsers p] f
  have 1: "build example_env (example_builder None False) [''/e'', ''/f''] =
             Inl (DataError ''Suite '/f' contains no tests or tasks.'')"
    by (simp add: example_builder_def)
  from validate_not_empty_cases[OF example_normalize(6) example_structures(6) example_get_parsers p, of True]
  have 2: "build example_env (example_builder None True) [''/e'', ''/f''] = Inr pruned_two_roots"
    by (simp add: example_builder_def two_roots_tree_def late_tree_def tasks_suite_def
          empty_suite_def pruned_two_roots_def)
  from validate_not_empty_cases[OF example_normalize(2) example_structures(2) example_get_parsers q, of False]
  have 3: "build example_env (example_builder None False) [''/e''] =
        Inr (TestSuite ''/e'' (Some ''/e'') [tasks_suite ''/e/tasks.robot''] [] (Some True))"
    by (simp add: example_builder_def late_tree_def tasks_suite_def empty_suite_def)
  from parse_two_roots f 1 2 3 show ?thesis by simp
qed

lemma parse_nested_example:
  "parse (SuiteStructureParser example_parsers r) nested_dirs = Inr (nested_tree r)"
  by (rule parse_nested_dirs) (simp add: example_parsers_lookup)

lemma build_nested_lenient:
  "build example_env (example_builder None True) [''/a''] =
     Inr (TestSuite ''/a'' (Some ''/a'') [] [] None)"
  by (simp add: build_def example_normalize example_structures example_get_parsers
        parse_nested_example)
     (simp add: example_builder_def nested_tree_def)

text \<open>
  Claim C7 as stated fails: for the directory \<^verbatim>\<open>/a\<close> holding only the empty directory
  \<^verbatim>\<open>/a/b\<close>, the parsed tree has the empty child, the most lenient configuration
  returns the tree without it, and no configuration makes \<open>build\<close> return the parsed
  tree unpruned.
\<close>

theorem pruning_not_optional_counterexample:
  "parse (SuiteStructureParser example_parsers None) nested_dirs = Inr (nested_tree None)
   \<and> \<not> has_tests (TestSuite ''/a/b'' (Some ''/a/b'') [] [] None)
   \<and> build example_env (example_builder None True) [''/a''] =
        Inr (TestSuite ''/a'' (Some ''/a'') [] [] None)
   \<and> \<not> (\<exists>b. build example_env b [''/a''] = Inr (nested_tree (builder_rpa b)))"
proof -
  have "\<not> (\<exists>b. build example_env b [''/a''] = Inr (nested_tree (builder_rpa b)))"
  proof
    assume "\<exists>b. build example_env b [''/a''] = Inr (nested_tree (builder_rpa b))"
    then obtain b where "build example_env b [''/a''] = Inr (nested_tree (builder_rpa b))" ..
    from build_nested[OF this] show False by (simp add: nested_tree_def)
  qed
  with parse_nested_example[of None] build_nested_lenient show ?thesis by simp
qed

theorem pruning_always_applied_witness:
  "build example_env (example_builder None True) [''/a''] =
     Inr (TestSuite ''/a'' (Some ''/a'') [] [] None)
   \<and> (\<exists>ps node prs s.
         normalize_paths example_env [''/a''] = Inr ps
       \<and> structure_builder example_env
            (included_extensions (example_builder None True) @
             map fst (custom_parsers (example_builder None True)))
            (included_suites (example_builder None True)) ps = Inr node
       \<and> get_parsers example_env (example_builder None True) ps = Inr prs
       \<and> parse (SuiteStructureParser prs (builder_rpa (example_builder None True))) node = Inr s
       \<and> TestSuite ''/a'' (Some ''/a'') [] [] None = remove_empty_suites (1 < length ps) s
       \<and> (length ps = 1 \<longrightarrow>
            list_all has_tests (suites (TestSuite ''/a'' (Some ''/a'') [] [] None))))"
  using pruning_always_applied[OF build_nested_lenient] build_nested_lenient by simp

theorem multi_source_root_anonymized_witness:
  "parse_init_file directory_parser None (TestDefaults None []) =
     Inr (TestSuite ''None'' None [] [] None, TestDefaults None [])
   \<and> build_suite_directory (SuiteStructureParser example_parsers None)
        (SuiteDirectory None None None True [late_dir]) =
      Inr (TestSuite [] None [] [] None, TestDefaults None [])"
proof -
  let ?st = "SuiteStructureParser example_parsers None"
  have l: "map_of (parsers ?st) None = Some directory_parser"
    by (simp add: SuiteStructureParser_def example_parsers_lookup)
  have p: "parse_init_file directory_parser (case None of Some i \<Rightarrow> Some i | None \<Rightarrow> None)
             (TestDefaults (parent_defaults ?st) []) =
           Inr (TestSuite ''None'' None [] [] None, TestDefaults None [])"
    by (simp add: directory_parser_def parent_defaults_def SuiteStructureParser_def)
  from multi_source_root_anonymized[OF l p, where children = "[late_dir]"]
  obtain s' where
    b: "build_suite_directory ?st (SuiteDirectory None None None True [late_dir]) =
          Inr (s', TestDefaults None [])"
    and f: "name s' = []" "source s' = None" "suites s' = []" "tests s' = []" "rpa s' = None"
    by auto
  from f have "s' = TestSuite [] None [] [] None" by (cases s') simp
  with b have "build_suite_directory ?st (SuiteDirectory None None None True [late_dir]) =
      Inr (TestSuite [] None [] [] None, TestDefaults None [])" by (simp only:)
  moreover have "parse_init_file directory_parser None (TestDefaults None []) =
     Inr (TestSuite ''None'' None [] [] None, TestDefaults None [])"
    by (simp add: directory_parser_def)
  ultimately show ?thesis by (rule conjI[rotated])
qed

lemma example_custom_parsers:
  "get_custom_parsers example_env [ByObject 1, ByObject 2, ByObject 3] =
     Inr [(''xyz'', plugin 2), (''abc'', plugin 1), (''txt'', plugin 3)]"
  "get_custom_parsers example_env [ByObject 1] = Inr [(''xyz'', plugin 1), (''abc'', plugin 1)]"
  by (simp_all add: get_custom_parsers_def example_env_def plugin_def)

theorem custom_parser_registration_witness:
  "get_custom_parsers example_env [ByObject 1, ByObject 2, ByObject 3] =
     Inr [(''xyz'', plugin 2), (''abc'', plugin 1), (''txt'', plugin 3)]
   \<and> ''xyz'' \<in> set (extensions (plugin 1)) \<and> ''xyz'' \<in> set (extensions (plugin 2))
   \<and> map_of [(''xyz'', plugin 2), (''abc'', plugin 1), (''txt'', plugin 3)] ''xyz'' =
        Some (plugin 2)
   \<and> get_custom_parsers example_env [ByObject 1, ByObject 0, ByObject 2] =
        Inl (DataError ''Importing parser 'Broken' failed: missing parse method'')"
proof -
  have r: "resolve_parser example_env (ByObject 2) = Inr (''Plugin'', 2)"
    "custom_parser example_env 2 = Inr (plugin 2)"
    "''xyz'' \<in> set (extensions (plugin 2))" "''xyz'' \<in> set (extensions (plugin 1))"
    by (simp_all add: example_env_def plugin_def)
  have u: "\<forall>a' \<in> set [ByObject 3]. \<forall>nm' obj' cp'.
        resolve_parser example_env a' = Inr (nm', obj') \<and> custom_parser example_env obj' = Inr cp'
        \<longrightarrow> ''xyz'' \<notin> set (extensions cp')"
    by (auto simp: example_env_def plugin_def)
  have bad: "custom_parser example_env 0 = Inl ''missing parse method''"
    "type_name example_env 0 = ''Broken''"
    by (simp_all add: example_env_def)
  from custom_parser_registration[where e = example_env and pre = "[ByObject 1]" and a = "ByObject 2"
            and post = "[ByObject 3]"
            and reg = "[(''xyz'', plugin 2), (''abc'', plugin 1), (''txt'', plugin 3)]"
            and nm = "''Plugin''" and obj = 2 and cp = "plugin 2" and ext = "''xyz''"
            and ?pre2.0 = "[ByObject 1]" and ?reg2.0 = "[(''xyz'', plugin 1), (''abc'', plugin 1)]"
            and ?obj2.0 = 0 and err = "''missing parse method''" and ?post2.0 = "[ByObject 2]"]
    example_custom_parsers r u bad
  show ?thesis by simp
qed

lemma visit_late:
  "visit (SuiteStructureParser example_parsers None) late_dir =
     Inr \<lparr>parsers = example_parsers, self_rpa = Some True, rpa_given = False,
          self_suite = Some (late_tree None), stack = []\<rparr>"
  by (simp add: example_eval late_dir_def late_tree_def)

theorem root_mode_is_running_mode_witness:
  "parse (SuiteStructureParser example_parsers None) late_dir = Inr (late_tree (Some True))
   \<and> declared_modes example_parsers None late_dir = [None, Some True]
   \<and> (\<exists>st'. visit (SuiteStructureParser example_parsers None) late_dir = Inr st'
         \<and> self_suite st' = Some (late_tree None) \<and> rpa (late_tree None) = None
         \<and> self_rpa st' = Some True)
   \<and> rpa (late_tree (Some True)) = Some True"
proof -
  note p = parse_late
  have d: "declared_modes example_parsers None late_dir = [None, Some True]"
    by (simp add: late_dir_def example_parsers_lookup example_parser_def
          directory_parser_def tasks_suite_def empty_suite_def)
  from root_mode_is_running_mode[OF p] obtain st' root where
    v: "visit (SuiteStructureParser example_parsers None) late_dir = Inr st'"
    and r: "self_suite st' = Some root" "rpa (late_tree (Some True)) = self_rpa st'"
      "self_rpa st' = reconciled None (declared_modes example_parsers None late_dir)"
    by blast
  from r d have m: "self_rpa st' = Some True" "rpa (late_tree (Some True)) = Some True"
    by (simp_all add: reconciled_def)
  from v visit_late have "st' = \<lparr>parsers = example_parsers, self_rpa = Some True,
          rpa_given = False, self_suite = Some (late_tree None), stack = []\<rparr>"
    by (simp only: sum.inject)
  then have "self_suite st' = Some (late_tree None)" by simp
  moreover have "rpa (late_tree None) = None" by (simp add: late_tree_def)
  ultimately show ?thesis using p d v m by blast
qed

end
